theory Spec2Isabelle
  imports Main "HOL-Library.Word"
begin

unbundle bit_operations_syntax

section \<open>REthos: the serial link engine of dist/tools/rethos/rethos.c\<close>

text \<open>
  The C types are modelled by words of the same width: \<open>uint8_t\<close> and \<open>char\<close> as
  \<open>8 word\<close>, \<open>uint16_t\<close> as \<open>16 word\<close>, \<open>uint64_t\<close> as \<open>64 word\<close>. Whether a plain
  \<open>char\<close> is signed is left to the platform by the C standard, and the program compares
  plain \<open>char\<close> values with integer constants, so the functions that do so take the
  signedness of \<open>char\<close> as their first argument. Sizes and indices (\<open>size_t\<close>) are
  natural numbers; they stay far below the range of \<open>size_t\<close>. A byte array of the source
  is a function from the index to the byte, written and read only at the indices the code
  uses.

  A function of the source whose name begins with an underscore is written without it.
  Writes are taken to succeed (a failed write ends the process), and what the program
  prints is left out.
\<close>

type_synonym u8 = "8 word"
type_synonym u16 = "16 word"
type_synonym u64 = "64 word"

definition MTU :: nat where
  "MTU = 16384"

definition RESERVED_CHANNEL :: u8 where "RESERVED_CHANNEL = 0"
definition STDIN_CHANNEL :: u8 where "STDIN_CHANNEL = 1"
definition CMD_CHANNEL :: u8 where "CMD_CHANNEL = 2"
definition TUNTAP_CHANNEL :: u8 where "TUNTAP_CHANNEL = 3"

definition CMD_GET_MCU_IP_ADDR :: u8 where "CMD_GET_MCU_IP_ADDR = 0x01"
definition RSP_GET_MCU_IP_ADDR :: u8 where "RSP_GET_MCU_IP_ADDR = 0x11"

definition RETHOS_ESC_CHAR :: u8 where "RETHOS_ESC_CHAR = 0xBE"
definition RETHOS_LITERAL_ESC :: u8 where "RETHOS_LITERAL_ESC = 0x55"
definition RETHOS_FRAME_START :: u8 where "RETHOS_FRAME_START = 0xEF"
definition RETHOS_FRAME_END :: u8 where "RETHOS_FRAME_END = 0xE5"

definition RETHOS_FRAME_TYPE_DATA :: u8 where "RETHOS_FRAME_TYPE_DATA = 0x1"
definition RETHOS_FRAME_TYPE_HB :: u8 where "RETHOS_FRAME_TYPE_HB = 0x2"
definition RETHOS_FRAME_TYPE_HB_REPLY :: u8 where "RETHOS_FRAME_TYPE_HB_REPLY = 0x3"
definition RETHOS_FRAME_TYPE_ACK :: u8 where "RETHOS_FRAME_TYPE_ACK = 0x4"
definition RETHOS_FRAME_TYPE_NACK :: u8 where "RETHOS_FRAME_TYPE_NACK = 0x5"

subsection \<open>Plain \<open>char\<close>\<close>

text \<open>The signedness of plain \<open>char\<close> on the platform the program is built for: signed
  with gcc on x86-64 Linux, unsigned with gcc on ARM Linux (or with \<open>-funsigned-char\<close>).\<close>

datatype char_sign = Char_signed | Char_unsigned

text \<open>The value of a \<open>char\<close> that holds the byte \<open>c\<close>, which is what the integer promotion
  of an operand of type \<open>char\<close> yields.\<close>

definition char_value :: "char_sign \<Rightarrow> u8 \<Rightarrow> int" where
  "char_value sg c = (case sg of Char_signed \<Rightarrow> sint c | Char_unsigned \<Rightarrow> uint c)"

text \<open>\<open>c == K\<close> for a \<open>char c\<close> and one of the constants \<open>K\<close> defined above, which has type
  \<open>int\<close> and the value \<open>uint K\<close>: \<open>c\<close> is promoted to \<open>int\<close> and the two \<open>int\<close> values are
  compared.\<close>

definition char_eq :: "char_sign \<Rightarrow> u8 \<Rightarrow> u8 \<Rightarrow> bool" where
  "char_eq sg c K \<longleftrightarrow> char_value sg c = uint K"

definition esc_esc :: "u8 list" where
  "esc_esc = [RETHOS_ESC_CHAR, RETHOS_LITERAL_ESC]"

definition start_frame :: "u8 list" where
  "start_frame = [RETHOS_ESC_CHAR, RETHOS_FRAME_START]"

definition end_frame :: "u8 list" where
  "end_frame = [RETHOS_ESC_CHAR, RETHOS_FRAME_END]"

subsection \<open>Byte arrays\<close>

text \<open>\<open>memcpy(buf, data, n)\<close> and the read of the first \<open>n\<close> bytes of an array.\<close>

definition store_buf :: "(nat \<Rightarrow> u8) \<Rightarrow> u8 list \<Rightarrow> (nat \<Rightarrow> u8)" where
  "store_buf buf bs = (\<lambda>i. if i < length bs then bs ! i else buf i)"

definition load_buf :: "(nat \<Rightarrow> u8) \<Rightarrow> nat \<Rightarrow> u8 list" where
  "load_buf buf n = map buf [0..<n]"

subsection \<open>The state of the link\<close>

datatype line_state_t =
    WAIT_FRAMESTART
  | WAIT_FRAMETYPE
  | WAIT_SEQNO_1
  | WAIT_SEQNO_2
  | WAIT_CHANNEL
  | IN_FRAME
  | WAIT_CHECKSUM_1
  | WAIT_CHECKSUM_2

datatype serial_event_t = NO_EVENT | FRAME_READY | FRAME_DROPPED

text \<open>\<open>serial_t\<close> without its file descriptor. The payload buffer \<open>frame\<close> is an array of
  plain \<open>char\<close>; the program copies it, writes it out, and reads its first element
  through \<open>uint8_t opcode = serial.frame[0]\<close>, so it is modelled by the bytes it holds.\<close>

record serial_t =
  sum1 :: u16
  sum2 :: u16
  state :: line_state_t
  frametype :: u8
  in_seqno :: u16
  channel :: u8
  numbytes :: nat
  frame :: "nat \<Rightarrow> u8"
  checksum :: u16
  in_escape :: bool
  out_seqno :: u16
  rexmit_seqno :: u16
  rexmit_channel :: u8
  rexmit_numbytes :: nat
  rexmit_frame :: "nat \<Rightarrow> u8"
  rexmit_acked :: bool
  received_data_frame :: bool
  last_rcvd_seqno :: u16

text \<open>\<open>serial_t serial = {0}; serial.rexmit_acked = true;\<close> in \<open>main\<close>.\<close>

definition serial_init :: serial_t where
  "serial_init = \<lparr> sum1 = 0, sum2 = 0, state = WAIT_FRAMESTART, frametype = 0,
     in_seqno = 0, channel = 0, numbytes = 0, frame = (\<lambda>_. 0), checksum = 0,
     in_escape = False, out_seqno = 0, rexmit_seqno = 0, rexmit_channel = 0,
     rexmit_numbytes = 0, rexmit_frame = (\<lambda>_. 0), rexmit_acked = True,
     received_data_frame = False, last_rcvd_seqno = 0 \<rparr>"

subsection \<open>Fletcher-16\<close>

text \<open>\<open>sum = (sum & 0xff) + (sum >> 8)\<close>, the reduction both functions apply.\<close>

definition fletcher16_reduce :: "u16 \<Rightarrow> u16" where
  "fletcher16_reduce s = (s AND 0xff) + drop_bit 8 s"

text \<open>The inner \<open>do ... while (--tlen)\<close> loop over one block: \<open>sum2 += sum1 += *data++\<close>.\<close>

fun fletcher16_block :: "u8 list \<Rightarrow> u16 \<times> u16 \<Rightarrow> u16 \<times> u16" where
  "fletcher16_block [] (s1, s2) = (s1, s2)"
| "fletcher16_block (d # ds) (s1, s2) =
     (let s1' = s1 + ucast d; s2' = s2 + s1' in fletcher16_block ds (s1', s2'))"

function fletcher16_add :: "u8 list \<Rightarrow> u16 \<Rightarrow> u16 \<Rightarrow> u16 \<times> u16" where
  "fletcher16_add data s1 s2 =
     (if data = [] then (s1, s2)
      else
        let tlen = (if length data > 20 then 20 else length data);
            (t1, t2) = fletcher16_block (take tlen data) (s1, s2)
        in fletcher16_add (drop tlen data) (fletcher16_reduce t1) (fletcher16_reduce t2))"
  by pat_completeness auto
termination
  by (relation "measure (\<lambda>(data, s1, s2). length data)") (auto split: if_splits)

declare fletcher16_add.simps [simp del]

definition fletcher16_fin :: "u16 \<Rightarrow> u16 \<Rightarrow> u16" where
  "fletcher16_fin s1 s2 = push_bit 8 (fletcher16_reduce s2) OR fletcher16_reduce s1"

subsection \<open>The receive state machine\<close>

text \<open>The three labels at the end of \<open>_serial_handle_byte\<close>.\<close>

definition done_char :: "serial_event_t \<Rightarrow> serial_t \<Rightarrow> serial_event_t \<times> serial_t" where
  "done_char event s = (event, s\<lparr>in_escape := False\<rparr>)"

definition drop_frame_state :: "serial_event_t \<Rightarrow> serial_t \<Rightarrow> serial_event_t \<times> serial_t" where
  "drop_frame_state event s = done_char event (s\<lparr>state := WAIT_FRAMESTART\<rparr>)"

definition handle_corrupt_frame :: "serial_t \<Rightarrow> serial_event_t \<times> serial_t" where
  "handle_corrupt_frame s = drop_frame_state FRAME_DROPPED s"

text \<open>The code after the \<open>switch\<close>: fold the byte into the checksum, then \<open>done_char\<close>.\<close>

definition update_checksum :: "u8 \<Rightarrow> serial_t \<Rightarrow> serial_event_t \<times> serial_t" where
  "update_checksum c s =
     (let (a, b) = fletcher16_add [c] (sum1 s) (sum2 s)
      in done_char NO_EVENT (s\<lparr>sum1 := a, sum2 := b\<rparr>))"

text \<open>The \<open>switch (serial->state)\<close>. A stray byte in \<open>WAIT_FRAMESTART\<close> leaves the
  switch by \<open>break\<close> and so is folded into the checksum as well.\<close>

definition serial_switch :: "serial_t \<Rightarrow> u8 \<Rightarrow> serial_event_t \<times> serial_t" where
  "serial_switch s c =
     (case state s of
        WAIT_FRAMESTART \<Rightarrow> update_checksum c s
      | WAIT_FRAMETYPE \<Rightarrow> update_checksum c (s\<lparr>frametype := c, state := WAIT_SEQNO_1\<rparr>)
      | WAIT_SEQNO_1 \<Rightarrow> update_checksum c (s\<lparr>in_seqno := ucast c, state := WAIT_SEQNO_2\<rparr>)
      | WAIT_SEQNO_2 \<Rightarrow>
          update_checksum c
            (s\<lparr>in_seqno := in_seqno s OR push_bit 8 (ucast c), state := WAIT_CHANNEL\<rparr>)
      | WAIT_CHANNEL \<Rightarrow> update_checksum c (s\<lparr>channel := c, state := IN_FRAME, numbytes := 0\<rparr>)
      | IN_FRAME \<Rightarrow>
          if numbytes s \<ge> MTU then handle_corrupt_frame s
          else update_checksum c
                 (s\<lparr>frame := (frame s)(numbytes s := c), numbytes := numbytes s + 1\<rparr>)
      | WAIT_CHECKSUM_1 \<Rightarrow> done_char NO_EVENT (s\<lparr>checksum := ucast c, state := WAIT_CHECKSUM_2\<rparr>)
      | WAIT_CHECKSUM_2 \<Rightarrow>
          (let s' = s\<lparr>checksum := checksum s OR push_bit 8 (ucast c)\<rparr>
           in if checksum s' \<noteq> fletcher16_fin (sum1 s') (sum2 s') then handle_corrupt_frame s'
              else drop_frame_state FRAME_READY s'))"

text \<open>\<open>_serial_handle_byte(serial_t *serial, char c)\<close>. The parameter is a plain \<open>char\<close>,
  and the four tests \<open>c == RETHOS_ESC_CHAR\<close>, \<open>c == RETHOS_LITERAL_ESC\<close>,
  \<open>c == RETHOS_FRAME_START\<close> and \<open>c == RETHOS_FRAME_END\<close> compare it with an \<open>int\<close>
  constant. Everywhere else the function uses the byte that \<open>c\<close> holds: it casts \<open>c\<close> to
  \<open>uint8_t\<close>, stores it in an \<open>uint8_t\<close>, passes \<open>(uint8_t*) &c\<close>, or keeps the low 16 bits
  of \<open>((uint16_t) c) << 8\<close>, which are those of the byte shifted whatever the sign.\<close>

definition serial_handle_byte :: "char_sign \<Rightarrow> serial_t \<Rightarrow> u8 \<Rightarrow> serial_event_t \<times> serial_t" where
  "serial_handle_byte sg s c =
     (if char_eq sg c RETHOS_ESC_CHAR then (NO_EVENT, s\<lparr>in_escape := True\<rparr>)
      else if in_escape s then
        (if char_eq sg c RETHOS_LITERAL_ESC then
           serial_switch (s\<lparr>in_escape := False\<rparr>) RETHOS_ESC_CHAR
         else if char_eq sg c RETHOS_FRAME_START then
           done_char NO_EVENT (s\<lparr>sum1 := 0xFF, sum2 := 0xFF, state := WAIT_FRAMETYPE\<rparr>)
         else if char_eq sg c RETHOS_FRAME_END then
           (if state s \<noteq> IN_FRAME then handle_corrupt_frame s
            else done_char NO_EVENT (s\<lparr>state := WAIT_CHECKSUM_1\<rparr>))
         else handle_corrupt_frame s)
      else serial_switch s c)"

text \<open>Feeding a sequence of bytes to the state machine, one event per byte.\<close>

fun feed :: "char_sign \<Rightarrow> serial_t \<Rightarrow> u8 list \<Rightarrow> serial_event_t list \<times> serial_t" where
  "feed sg s [] = ([], s)"
| "feed sg s (c # cs) =
     (let (ev, s') = serial_handle_byte sg s c; (evs, s'') = feed sg s' cs in (ev # evs, s''))"

subsection \<open>The frame encoder\<close>

text \<open>The functions that write to the serial descriptor are modelled by the bytes they
  write, in order. \<open>_write_escaped\<close> converts each byte to a plain \<open>char\<close>
  (\<open>char c = (char) buf[i]\<close>) and tests \<open>c == RETHOS_ESC_CHAR\<close>.\<close>

definition write_escaped :: "char_sign \<Rightarrow> u8 list \<Rightarrow> u8 list" where
  "write_escaped sg buf =
     concat (map (\<lambda>c. if char_eq sg c RETHOS_ESC_CHAR then esc_esc else [c]) buf)"

definition send_frame :: "char_sign \<Rightarrow> u8 list \<Rightarrow> u8 \<Rightarrow> u16 \<Rightarrow> u8 \<Rightarrow> u8 list" where
  "send_frame sg data chan seqno frame_type =
     (let preamble_buffer = [frame_type, ucast (seqno AND 0xFF), ucast (drop_bit 8 seqno), chan];
          (f1, f2) = fletcher16_add preamble_buffer 0xFF 0xFF;
          (g1, g2) = fletcher16_add data f1 f2;
          cksum = fletcher16_fin g1 g2;
          postamble_buffer = [ucast cksum, ucast (drop_bit 8 cksum)]
      in start_frame @ write_escaped sg preamble_buffer @ write_escaped sg data @ end_frame
         @ write_escaped sg postamble_buffer)"

subsection \<open>Timers\<close>

text \<open>A \<open>struct itimerspec\<close>, each \<open>struct timespec\<close> in nanoseconds. The initialiser
  \<open>{ REXMIT_TIMEOUT, REXMIT_TIMEOUT }\<close> sets both members, \<open>it_interval\<close> first.\<close>

record itimerspec =
  it_interval :: nat
  it_value :: nat

definition REXMIT_TIMEOUT :: nat where
  "REXMIT_TIMEOUT = 0 * 1000000000 + 100000000"

definition rexmit_timer_spec :: itimerspec where
  "rexmit_timer_spec = \<lparr> it_interval = REXMIT_TIMEOUT, it_value = REXMIT_TIMEOUT \<rparr>"

definition cancel_timer_spec :: itimerspec where
  "cancel_timer_spec = \<lparr> it_interval = 0, it_value = 0 \<rparr>"

text \<open>The contract of a POSIX timer, which the program relies on: a timer whose
  \<open>it_value\<close> is zero is disarmed; an armed timer expires when \<open>it_value\<close> has elapsed and
  is then reloaded from \<open>it_interval\<close> (and so disarmed when that is zero).
  \<open>timer_elapse d t\<close> lets time pass until \<open>d\<close> nanoseconds are over or the timer
  expires, whichever comes first, and tells whether it expired.\<close>

definition timer_elapse :: "nat \<Rightarrow> itimerspec \<Rightarrow> bool \<times> itimerspec" where
  "timer_elapse d t =
     (if it_value t = 0 then (False, t)
      else if d < it_value t then (False, t\<lparr>it_value := it_value t - d\<rparr>)
      else (True, t\<lparr>it_value := it_interval t\<rparr>))"

subsection \<open>The variables of \<open>main\<close>\<close>

text \<open>\<open>stats.global\<close>. The counters per channel and the log output are left out.\<close>

record global_stats_t =
  serial_received :: u64
  domain_forwarded :: u64
  domain_received :: u64
  serial_forwarded :: u64
  lost_frames :: u64
  bad_frames :: u64
  drop_notconnected :: u64

definition stats_init :: global_stats_t where
  "stats_init = \<lparr> serial_received = 0, domain_forwarded = 0, domain_received = 0,
     serial_forwarded = 0, lost_frames = 0, bad_frames = 0, drop_notconnected = 0 \<rparr>"

text \<open>The local \<open>struct { char opcode; struct in6_addr mcu_addr; } mcu_addr_rsp_frame\<close>.
  The struct is not declared packed, so the object that is sent holds, between \<open>opcode\<close>
  and \<open>mcu_addr\<close>, the padding that aligns \<open>struct in6_addr\<close>: \<open>padding\<close> are those bytes
  (three on Linux, where \<open>struct in6_addr\<close> is aligned to four bytes; never initialised).\<close>

record mcu_addr_rsp_frame_t =
  opcode :: u8
  padding :: "u8 list"
  mcu_addr :: "u8 list"

text \<open>The \<open>sizeof(mcu_addr_rsp_frame)\<close> bytes at \<open>(uint8_t*) &mcu_addr_rsp_frame\<close>.\<close>

definition rsp_frame_bytes :: "mcu_addr_rsp_frame_t \<Rightarrow> u8 list" where
  "rsp_frame_bytes r = opcode r # padding r @ mcu_addr r"

text \<open>\<open>client_socket i\<close> stands for \<open>domain_sockets[i].client_socket != -1\<close>, \<open>have_tun\<close>
  for \<open>tun_fd != -1\<close>.\<close>

record main_t =
  serial :: serial_t
  stats :: global_stats_t
  inbuf :: "nat \<Rightarrow> u8"
  mcu_addr_rsp_frame :: mcu_addr_rsp_frame_t
  have_tun :: bool
  have_stdin :: bool
  client_socket :: "nat \<Rightarrow> bool"
  rexmit_timer :: itimerspec
  stats_fired :: bool
  rexmit_fired :: bool
  ipaddr_fired :: bool

definition NUM_CHANNELS :: nat where
  "NUM_CHANNELS = 256"

text \<open>The state when the loop of \<open>main\<close> is entered, for a given response frame and
  tunnel.\<close>

definition main_init :: "mcu_addr_rsp_frame_t \<Rightarrow> bool \<Rightarrow> main_t" where
  "main_init rsp tun = \<lparr> serial = serial_init, stats = stats_init, inbuf = (\<lambda>_. 0),
     mcu_addr_rsp_frame = rsp\<lparr>opcode := RSP_GET_MCU_IP_ADDR\<rparr>, have_tun = tun,
     have_stdin = True, client_socket = (\<lambda>_. False), rexmit_timer = cancel_timer_spec,
     stats_fired = False, rexmit_fired = False, ipaddr_fired = False \<rparr>"

text \<open>Time passing for the retransmission timer; on expiry \<open>timer_handler\<close> runs and sets
  \<open>rexmit_fired\<close>.\<close>

definition rexmit_timer_wait :: "nat \<Rightarrow> main_t \<Rightarrow> main_t" where
  "rexmit_timer_wait d m =
     (let (expired, t) = timer_elapse d (rexmit_timer m)
      in m\<lparr>rexmit_timer := t, rexmit_fired := (rexmit_fired m \<or> expired)\<rparr>)"

subsection \<open>The link engine\<close>

text \<open>What the program does to the outside, in order: a call of \<open>_send_frame\<close> (which
  writes the bytes \<open>send_frame\<close> gives to the serial line), a write to standard output or
  to the tunnel, a \<open>write_message\<close> to the client of a channel, and the statistics sent to
  the client of channel 0.\<close>

datatype effect =
    Send_frame "u8 list" u8 u16 u8
  | Write_stdout "u8 list"
  | Write_tun "u8 list"
  | Write_message u8 "u8 list"
  | Write_stats global_stats_t

fun wire :: "char_sign \<Rightarrow> effect \<Rightarrow> u8 list" where
  "wire sg (Send_frame data chan seqno frame_type) = send_frame sg data chan seqno frame_type"
| "wire sg _ = []"

definition rethos_send_data_frame :: "main_t \<Rightarrow> u8 list \<Rightarrow> u8 \<Rightarrow> main_t \<times> effect list" where
  "rethos_send_data_frame m data chan =
     (let s = serial m;
          seqno = out_seqno s + 1;
          s' = s\<lparr>out_seqno := seqno, rexmit_seqno := seqno, rexmit_channel := chan,
                 rexmit_numbytes := length data,
                 rexmit_frame := store_buf (rexmit_frame s) data, rexmit_acked := False\<rparr>
      in (m\<lparr>serial := s', rexmit_timer := rexmit_timer_spec\<rparr>,
          [Send_frame data chan seqno RETHOS_FRAME_TYPE_DATA]))"

definition rethos_rexmit_data_frame :: "serial_t \<Rightarrow> effect list" where
  "rethos_rexmit_data_frame s =
     [Send_frame (load_buf (rexmit_frame s) (rexmit_numbytes s)) (rexmit_channel s)
        (rexmit_seqno s) RETHOS_FRAME_TYPE_DATA]"

definition rethos_send_ack_frame :: "u16 \<Rightarrow> effect list" where
  "rethos_send_ack_frame seqno = [Send_frame [] RESERVED_CHANNEL seqno RETHOS_FRAME_TYPE_ACK]"

definition rethos_send_nack_frame :: "effect list" where
  "rethos_send_nack_frame = [Send_frame [] RESERVED_CHANNEL 0 RETHOS_FRAME_TYPE_NACK]"

subsection \<open>Handling a received frame\<close>

text \<open>The branch \<open>if (serial.channel == RESERVED_CHANNEL)\<close> up to its \<open>goto serial_done\<close>.\<close>

definition handle_control_frame :: "main_t \<Rightarrow> main_t \<times> effect list" where
  "handle_control_frame m =
     (let s = serial m in
      if frametype s = RETHOS_FRAME_TYPE_NACK then
        (if rexmit_acked s then
           (if received_data_frame s then (m, rethos_send_ack_frame (last_rcvd_seqno s))
            else (m, []))
         else (m, rethos_rexmit_data_frame s))
      else if frametype s = RETHOS_FRAME_TYPE_ACK then
        (if in_seqno s = rexmit_seqno s then
           (m\<lparr>serial := s\<lparr>rexmit_acked := True\<rparr>, rexmit_timer := cancel_timer_spec\<rparr>, [])
         else (m, []))
      else (m, []))"

text \<open>From \<open>if (serial.channel == STDIN_CHANNEL)\<close> to the end of the \<open>FRAME_READY\<close>
  branch: the built-in consumers, then the client of the channel.\<close>

definition deliver_frame :: "main_t \<Rightarrow> main_t \<times> effect list" where
  "deliver_frame m =
     (let s = serial m;
          payload = load_buf (frame s) (numbytes s);
          (m1, e1) =
            (if channel s = STDIN_CHANNEL then (m, [Write_stdout payload])
             else if channel s = TUNTAP_CHANNEL then
               (if have_tun m then (m, [Write_tun payload]) else (m, []))
             else if channel s = CMD_CHANNEL then
               (if numbytes s = 0 then (m, [])
                else if frame s 0 = CMD_GET_MCU_IP_ADDR then
                  rethos_send_data_frame m (rsp_frame_bytes (mcu_addr_rsp_frame m)) CMD_CHANNEL
                else (m, []))
             else (m, []))
      in if client_socket m1 (unat (channel s)) then
           (m1\<lparr>stats := (stats m1)\<lparr>domain_forwarded := domain_forwarded (stats m1) + 1\<rparr>\<rparr>,
            e1 @ [Write_message (channel s) payload])
         else if channel s \<noteq> STDIN_CHANNEL \<and> channel s \<noteq> TUNTAP_CHANNEL then
           (m1\<lparr>stats := (stats m1)\<lparr>drop_notconnected := drop_notconnected (stats m1) + 1\<rparr>\<rparr>, e1)
         else (m1, e1))"

text \<open>The branch \<open>if (event == FRAME_READY)\<close>. The last component tells whether the
  branch is left by \<open>goto serial_done\<close>. In
  \<open>stats.global.lost_frames += (serial.in_seqno - serial.last_rcvd_seqno - 1)\<close> the
  two \<open>uint16_t\<close> operands are promoted to \<open>int\<close>, and the \<open>int\<close> difference is converted to
  \<open>uint64_t\<close> for the addition.\<close>

definition handle_frame_ready :: "main_t \<Rightarrow> main_t \<times> effect list \<times> bool" where
  "handle_frame_ready m0 =
     (if unat (channel (serial m0)) \<ge> NUM_CHANNELS then (m0, [], False)
      else
        let m = m0\<lparr>stats := (stats m0)\<lparr>serial_received := serial_received (stats m0) + 1\<rparr>\<rparr>;
            s = serial m
        in if channel s = RESERVED_CHANNEL then
             (let (m', e) = handle_control_frame m in (m', e, True))
           else
             let ack = rethos_send_ack_frame (in_seqno s)
             in if received_data_frame s \<and> in_seqno s = last_rcvd_seqno s then (m, ack, True)
                else
                  let m1 = m\<lparr>serial := s\<lparr>received_data_frame := True,
                                            last_rcvd_seqno := in_seqno s\<rparr>,
                             stats := (stats m)\<lparr>lost_frames := lost_frames (stats m)
                               + word_of_int (uint (in_seqno s) - uint (last_rcvd_seqno s) - 1)\<rparr>\<rparr>
                  in if numbytes s = 0 then (m1, ack, True)
                     else (let (m2, e) = deliver_frame m1 in (m2, ack @ e, False)))"

text \<open>The loop \<open>for (i = 0; i != n; i++)\<close> over the bytes of one read of the serial
  line. The last component holds the bytes of the read that were not passed to
  \<open>_serial_handle_byte\<close> when the loop was left.\<close>

fun serial_loop :: "char_sign \<Rightarrow> main_t \<Rightarrow> u8 list \<Rightarrow> main_t \<times> effect list \<times> u8 list" where
  "serial_loop sg m [] = (m, [], [])"
| "serial_loop sg m (c # cs) =
     (let (event, s') = serial_handle_byte sg (serial m) c;
          m1 = m\<lparr>serial := s'\<rparr>
      in case event of
           FRAME_READY \<Rightarrow>
             (let (m2, e, serial_done) = handle_frame_ready m1
              in if serial_done then (m2, e, cs)
                 else (let (m3, e', rest) = serial_loop sg m2 cs in (m3, e @ e', rest)))
         | FRAME_DROPPED \<Rightarrow>
             (let m2 = m1\<lparr>stats := (stats m1)\<lparr>bad_frames := bad_frames (stats m1) + 1,
                                                 lost_frames := lost_frames (stats m1) + 1\<rparr>\<rparr>;
                  (m3, e', rest) = serial_loop sg m2 cs
              in (m3, rethos_send_nack_frame @ e', rest))
         | NO_EVENT \<Rightarrow> serial_loop sg m1 cs)"

subsection \<open>Messages of local clients\<close>

datatype read_status = READ_SUCCESS | READ_EOF | READ_PARTIAL | READ_OVERFLOW

text \<open>\<open>checked_read\<close> on a descriptor that delivers the bytes \<open>stream\<close> and then end of
  file: the bytes read and the bytes left.\<close>

definition checked_read :: "u8 list \<Rightarrow> nat \<Rightarrow> u8 list \<times> u8 list" where
  "checked_read stream toread = (take toread stream, drop toread stream)"

definition ntohl :: "u8 list \<Rightarrow> nat" where
  "ntohl bs = foldl (\<lambda>n b. 256 * n + unat b) 0 bs"

text \<open>\<open>read_message\<close>: the status, the returned size and the buffer. The status
  \<open>READ_PARTIAL\<close> that is set after a short read of the message body is overwritten by the
  \<open>if\<close> that follows it.\<close>

definition read_message :: "u8 list \<Rightarrow> (nat \<Rightarrow> u8) \<Rightarrow> nat \<Rightarrow> read_status \<times> nat \<times> (nat \<Rightarrow> u8)" where
  "read_message stream buffer buffer_size =
     (let (hdr, rest) = checked_read stream 4
      in if length hdr \<noteq> 4 then
           (if length hdr = 0 then (READ_EOF, 0, buffer) else (READ_PARTIAL, 0, buffer))
         else
           let message_size = ntohl hdr;
               bytes_to_read = (if message_size > buffer_size then buffer_size else message_size);
               (body, rest') = checked_read rest bytes_to_read;
               buffer' = store_buf buffer body
           in if message_size > buffer_size then (READ_OVERFLOW, message_size, buffer')
              else (READ_SUCCESS, message_size, buffer'))"

subsection \<open>One iteration of the loop of \<open>main\<close>\<close>

text \<open>What \<open>pselect\<close> reports: \<open>interrupted\<close> for the return value -1 with \<open>EINTR\<close>;
  for each descriptor \<open>None\<close> when it is not ready, else the bytes it delivers before
  end of file (none: a read returns 0 or fails). For a listening socket, being ready
  means that a client is waiting.\<close>

record wakeup =
  interrupted :: bool
  serial_ready :: "u8 list option"
  stdin_ready :: "u8 list option"
  tun_ready :: "u8 list option"
  chan_ready :: "nat \<Rightarrow> u8 list option"

definition timers_section :: "main_t \<Rightarrow> main_t \<times> effect list" where
  "timers_section m =
     (let (m1, e1) =
            (if stats_fired m then
               (m\<lparr>stats_fired := False\<rparr>,
                if client_socket m (unat RESERVED_CHANNEL) then [Write_stats (stats m)] else [])
             else (m, []));
          (m2, e2) =
            (if rexmit_fired m1 then
               (m1\<lparr>rexmit_fired := False\<rparr>,
                if \<not> rexmit_acked (serial m1) then rethos_rexmit_data_frame (serial m1) else [])
             else (m1, []));
          (m3, e3) =
            (if ipaddr_fired m2 then
               rethos_send_data_frame (m2\<lparr>ipaddr_fired := False\<rparr>)
                 (rsp_frame_bytes (mcu_addr_rsp_frame m2)) CMD_CHANNEL
             else (m2, []))
      in (m3, e1 @ e2 @ e3))"

text \<open>\<open>None\<close>: \<open>exit(1)\<close> after "lost serial connection".\<close>

definition serial_section :: "char_sign \<Rightarrow> wakeup \<Rightarrow> main_t \<Rightarrow> (main_t \<times> effect list) option" where
  "serial_section sg w m =
     (case serial_ready w of
        None \<Rightarrow> Some (m, [])
      | Some bs \<Rightarrow>
          if bs = [] then None
          else
            let n = length (take MTU bs);
                m1 = m\<lparr>inbuf := store_buf (inbuf m) (take MTU bs)\<rparr>;
                (m2, e, rest) = serial_loop sg m1 (load_buf (inbuf m1) n)
            in Some (m2, e))"

text \<open>The last component: the iteration ends here by \<open>continue\<close>.\<close>

definition stdin_section :: "wakeup \<Rightarrow> main_t \<Rightarrow> main_t \<times> effect list \<times> bool" where
  "stdin_section w m =
     (case (if have_stdin m then stdin_ready w else None) of
        None \<Rightarrow> (m, [], False)
      | Some bs \<Rightarrow>
          if bs = [] then (m\<lparr>have_stdin := False\<rparr>, [], True)
          else
            let res = length (take MTU bs);
                m1 = m\<lparr>inbuf := store_buf (inbuf m) (take MTU bs)\<rparr>;
                (m2, e) = rethos_send_data_frame m1 (load_buf (inbuf m1) res) STDIN_CHANNEL
            in (m2, e, False))"

definition tun_section :: "wakeup \<Rightarrow> main_t \<Rightarrow> main_t \<times> effect list \<times> bool" where
  "tun_section w m =
     (case (if have_tun m then tun_ready w else None) of
        None \<Rightarrow> (m, [], False)
      | Some bs \<Rightarrow>
          if bs = [] then (m, [], True)
          else
            let res = length (take MTU bs);
                m1 = m\<lparr>inbuf := store_buf (inbuf m) (take MTU bs)\<rparr>;
                (m2, e) = rethos_send_data_frame m1 (load_buf (inbuf m1) res) TUNTAP_CHANNEL
            in (m2, e, False))"

text \<open>The body of the loop over the channels, for channel \<open>i\<close>.\<close>

definition channel_step :: "wakeup \<Rightarrow> nat \<Rightarrow> main_t \<Rightarrow> main_t \<times> effect list" where
  "channel_step w i m =
     (case chan_ready w i of
        None \<Rightarrow> (m, [])
      | Some stream \<Rightarrow>
          if \<not> client_socket m i then (m\<lparr>client_socket := (client_socket m)(i := True)\<rparr>, [])
          else
            let (status, message_size, buf) = read_message stream (inbuf m) MTU;
                m1 = m\<lparr>inbuf := buf\<rparr>
            in case status of
                 READ_SUCCESS \<Rightarrow>
                   (let m2 = m1\<lparr>stats := (stats m1)\<lparr>domain_received :=
                                                       domain_received (stats m1) + 1\<rparr>\<rparr>;
                        (m3, e) = rethos_send_data_frame m2 (load_buf (inbuf m2) message_size)
                                    (word_of_nat i)
                    in (m3\<lparr>stats := (stats m3)\<lparr>serial_forwarded :=
                                                   serial_forwarded (stats m3) + 1\<rparr>\<rparr>, e))
               | READ_OVERFLOW \<Rightarrow> (m1, [])
               | READ_PARTIAL \<Rightarrow> (m1\<lparr>client_socket := (client_socket m1)(i := False)\<rparr>, [])
               | READ_EOF \<Rightarrow> (m1\<lparr>client_socket := (client_socket m1)(i := False)\<rparr>, []))"

fun channel_loop :: "wakeup \<Rightarrow> nat list \<Rightarrow> main_t \<Rightarrow> main_t \<times> effect list" where
  "channel_loop w [] m = (m, [])"
| "channel_loop w (i # is) m =
     (let (m1, e1) = channel_step w i m; (m2, e2) = channel_loop w is m1 in (m2, e1 @ e2))"

text \<open>One pass through the body of \<open>while (true)\<close>, from the return of \<open>pselect\<close>.
  \<open>None\<close>: the process exits.\<close>

definition main_iteration :: "char_sign \<Rightarrow> main_t \<Rightarrow> wakeup \<Rightarrow> (main_t \<times> effect list) option" where
  "main_iteration sg m w =
     (if interrupted w \<and> \<not> (stats_fired m \<or> rexmit_fired m \<or> ipaddr_fired m) then None
      else
        let (m1, e1) = timers_section m
        in if interrupted w then Some (m1, e1)
           else
             case serial_section sg w m1 of
               None \<Rightarrow> None
             | Some (m2, e2) \<Rightarrow>
                 let (m3, e3, c3) = stdin_section w m2
                 in if c3 then Some (m3, e1 @ e2 @ e3)
                    else
                      let (m4, e4, c4) = tun_section w m3
                      in if c4 then Some (m4, e1 @ e2 @ e3 @ e4)
                         else
                           let (m5, e5) = channel_loop w [0..<NUM_CHANNELS] m4
                           in Some (m5, e1 @ e2 @ e3 @ e4 @ e5))"

section \<open>Notions used in the proofs\<close>

text \<open>The range in which both accumulators stay between two reductions.\<close>

definition fl_inv :: "u16 \<Rightarrow> bool" where
  "fl_inv s \<longleftrightarrow> 0 < unat s \<and> unat s \<le> 510"

text \<open>\<open>tri k = 1 + ... + k\<close>, for the bound on \<open>sum2\<close> within a block.\<close>

fun tri :: "nat \<Rightarrow> nat" where
  "tri 0 = 0"
| "tri (Suc k) = tri k + Suc k"

text \<open>The checksum as arithmetic modulo 255, byte by byte.\<close>

definition fl_step :: "u8 \<Rightarrow> nat \<times> nat \<Rightarrow> nat \<times> nat" where
  "fl_step d p = (let a = (fst p + unat d) mod 255 in (a, (snd p + a) mod 255))"

definition fl_abs :: "u8 list \<Rightarrow> nat \<times> nat \<Rightarrow> nat \<times> nat" where
  "fl_abs ds p = fold fl_step ds p"

text \<open>The checksum state of the receiver after a sequence of bytes, one call per byte.\<close>

fun rx_sums :: "u8 list \<Rightarrow> u16 \<times> u16 \<Rightarrow> u16 \<times> u16" where
  "rx_sums [] p = p"
| "rx_sums (c # cs) p = rx_sums cs (fletcher16_add [c] (fst p) (snd p))"

text \<open>The state machine run on unescaped bytes, and the events other than \<open>NO_EVENT\<close>.\<close>

fun switch_feed :: "serial_t \<Rightarrow> u8 list \<Rightarrow> serial_event_t list \<times> serial_t" where
  "switch_feed s [] = ([], s)"
| "switch_feed s (c # cs) =
     (fst (serial_switch s c) # fst (switch_feed (snd (serial_switch s c)) cs),
      snd (switch_feed (snd (serial_switch s c)) cs))"

definition loud :: "serial_event_t list \<Rightarrow> serial_event_t list" where
  "loud evs = filter (\<lambda>e. e \<noteq> NO_EVENT) evs"

text \<open>The fields of the receiver that a frame in progress determines.\<close>

definition rx_holds ::
  "serial_t \<Rightarrow> line_state_t \<Rightarrow> u8 \<Rightarrow> u16 \<Rightarrow> u8 \<Rightarrow> u8 list \<Rightarrow> u16 \<times> u16 \<Rightarrow> bool" where
  "rx_holds s st ft sq ch pl sums \<longleftrightarrow>
     state s = st \<and> \<not> in_escape s \<and> frametype s = ft \<and> in_seqno s = sq \<and> channel s = ch \<and>
     numbytes s = length pl \<and> load_buf (frame s) (length pl) = pl \<and> (sum1 s, sum2 s) = sums"

subsection \<open>What is read off the effects\<close>

text \<open>The frame type of a frame that is sent, the writes that hand a payload on, and the
  sequence number an \<open>ACK\<close> frame carries.\<close>

fun frame_type_of :: "effect \<Rightarrow> u8 option" where
  "frame_type_of (Send_frame data chan seqno frame_type) = Some frame_type"
| "frame_type_of _ = None"

fun is_delivery :: "effect \<Rightarrow> bool" where
  "is_delivery (Write_stdout data) = True"
| "is_delivery (Write_tun data) = True"
| "is_delivery (Write_message chan data) = True"
| "is_delivery _ = False"

fun acked_seqno :: "effect \<Rightarrow> u16 list" where
  "acked_seqno (Send_frame data chan seqno frame_type) =
     (if frame_type = RETHOS_FRAME_TYPE_ACK then [seqno] else [])"
| "acked_seqno _ = []"

text \<open>The fields of the link engine, which the receive state machine leaves alone.\<close>

definition link_state :: "serial_t \<Rightarrow> u16 \<times> u16 \<times> u8 \<times> nat \<times> (nat \<Rightarrow> u8) \<times> bool \<times> bool \<times> u16" where
  "link_state s = (out_seqno s, rexmit_seqno s, rexmit_channel s, rexmit_numbytes s,
     rexmit_frame s, rexmit_acked s, received_data_frame s, last_rcvd_seqno s)"

subsection \<open>Example states\<close>

text \<open>A response frame as it lies in memory on Linux, with three bytes of padding and
  the address 2001:db8::2.\<close>

definition rsp_example :: mcu_addr_rsp_frame_t where
  "rsp_example = \<lparr> opcode = RSP_GET_MCU_IP_ADDR, padding = [0, 0, 0],
     mcu_addr = [0x20, 0x01, 0x0d, 0xb8, 0, 0, 0, 0, 0, 0, 0, 0, 0, 0, 0, 0x02] \<rparr>"

text \<open>The state in which the receiver has just reported a frame with the given fields.\<close>

definition received :: "main_t \<Rightarrow> u8 \<Rightarrow> u16 \<Rightarrow> u8 \<Rightarrow> u8 list \<Rightarrow> main_t" where
  "received m ft sq ch pl =
     m\<lparr>serial := (serial m)\<lparr>state := WAIT_FRAMESTART, frametype := ft, in_seqno := sq,
           channel := ch, numbytes := length pl, frame := store_buf (frame (serial m)) pl,
           in_escape := False\<rparr>\<rparr>"

text \<open>One \<open>DATA\<close> frame has been sent and not acknowledged; then a \<open>NACK\<close> arrives.\<close>

definition unacked_example :: main_t where
  "unacked_example = fst (rethos_send_data_frame (main_init rsp_example False) [0x41] 4)"

definition nack_example :: main_t where
  "nack_example = received unacked_example RETHOS_FRAME_TYPE_NACK 0 RESERVED_CHANNEL []"

text \<open>A first \<open>DATA\<close> frame on channel 4, where a client is connected.\<close>

definition new_frame_example :: main_t where
  "new_frame_example =
     received ((main_init rsp_example False)\<lparr>client_socket := (\<lambda>i. i = 4)\<rparr>)
       RETHOS_FRAME_TYPE_DATA 7 4 [0x41]"

text \<open>The same frame arrives again, right after it has been handled.\<close>

definition duplicate_example :: main_t where
  "duplicate_example = fst (handle_frame_ready new_frame_example)"

text \<open>The last frame received had the sequence number 65535.\<close>

definition wrap_start :: main_t where
  "wrap_start = (main_init rsp_example False)\<lparr>serial :=
     serial_init\<lparr>received_data_frame := True, last_rcvd_seqno := 65535\<rparr>\<rparr>"

subsection \<open>Example wakeups and runs\<close>

text \<open>Nothing is ready; only standard input is ready; \<open>pselect\<close> was interrupted by a
  signal.\<close>

definition no_wakeup :: wakeup where
  "no_wakeup = \<lparr> interrupted = False, serial_ready = None, stdin_ready = None,
     tun_ready = None, chan_ready = (\<lambda>_. None) \<rparr>"

definition stdin_wakeup :: "u8 list \<Rightarrow> wakeup" where
  "stdin_wakeup bs = no_wakeup\<lparr>stdin_ready := Some bs\<rparr>"

definition interrupted_wakeup :: wakeup where
  "interrupted_wakeup = no_wakeup\<lparr>interrupted := True\<rparr>"

text \<open>The state after the first pass of the loop, in which standard input delivered one
  byte.\<close>

definition first_send_example :: "char_sign \<Rightarrow> main_t" where
  "first_send_example sg =
     fst (the (main_iteration sg (main_init rsp_example False) (stdin_wakeup [0x41])))"

text \<open>100 ms pass with nothing to read, then the loop runs.\<close>

definition rexmit_round :: "char_sign \<Rightarrow> main_t \<Rightarrow> (main_t \<times> effect list) option" where
  "rexmit_round sg m =
     main_iteration sg (rexmit_timer_wait REXMIT_TIMEOUT m) interrupted_wakeup"

text \<open>\<open>k\<close> such rounds in a row, with everything that was sent.\<close>

fun rexmit_rounds :: "char_sign \<Rightarrow> nat \<Rightarrow> main_t \<Rightarrow> (main_t \<times> effect list) option" where
  "rexmit_rounds sg 0 m = Some (m, [])"
| "rexmit_rounds sg (Suc k) m =
     (case rexmit_round sg m of
        None \<Rightarrow> None
      | Some (m1, e1) \<Rightarrow>
          (case rexmit_rounds sg k m1 of None \<Rightarrow> None | Some (m2, e2) \<Rightarrow> Some (m2, e1 @ e2)))"

subsection \<open>Bounds on what is sent and stored\<close>

text \<open>The payload of a frame that is sent; the bound on all payloads of a list of effects;
  the bounds a pass of the loop relies on; the parts of the two frame buffers beyond
  their \<open>MTU\<close> bytes; and the three together for a step from \<open>m\<close> to \<open>m'\<close>.\<close>

fun payload_of :: "effect \<Rightarrow> u8 list" where
  "payload_of (Send_frame data chan seqno frame_type) = data"
| "payload_of _ = []"

definition within_mtu :: "effect list \<Rightarrow> bool" where
  "within_mtu effs = list_all (\<lambda>e. length (payload_of e) \<le> MTU) effs"

definition tx_inv :: "main_t \<Rightarrow> bool" where
  "tx_inv m \<longleftrightarrow> rexmit_numbytes (serial m) \<le> MTU \<and>
     length (rsp_frame_bytes (mcu_addr_rsp_frame m)) \<le> MTU"

definition buffers_kept :: "serial_t \<Rightarrow> serial_t \<Rightarrow> bool" where
  "buffers_kept s s' \<longleftrightarrow>
     (\<forall>i. MTU \<le> i \<longrightarrow> rexmit_frame s' i = rexmit_frame s i \<and> frame s' i = frame s i)"

definition step_ok :: "main_t \<Rightarrow> main_t \<Rightarrow> effect list \<Rightarrow> bool" where
  "step_ok m m' effs \<longleftrightarrow> tx_inv m' \<and> within_mtu effs \<and> buffers_kept (serial m) (serial m')"


subsection \<open>Sending while the slot is in use\<close>

text \<open>The frame that a call of \<open>rethos_send_data_frame\<close> in the state \<open>m\<close> sends, and what
  holds of the state \<open>m'\<close> after it: the counter has moved on by one, the slot is unacked
  and holds that frame, so that a retransmission sends exactly it, and the timer is
  armed.\<close>

definition fresh_frame :: "main_t \<Rightarrow> u8 list \<Rightarrow> u8 \<Rightarrow> effect" where
  "fresh_frame m data chan =
     Send_frame data chan (out_seqno (serial m) + 1) RETHOS_FRAME_TYPE_DATA"

definition slot_replaced :: "main_t \<Rightarrow> main_t \<Rightarrow> u8 list \<Rightarrow> u8 \<Rightarrow> bool" where
  "slot_replaced m m' data chan \<longleftrightarrow>
     out_seqno (serial m') = out_seqno (serial m) + 1 \<and> \<not> rexmit_acked (serial m') \<and>
     rethos_rexmit_data_frame (serial m') = [fresh_frame m data chan] \<and>
     rexmit_timer m' = rexmit_timer_spec"

text \<open>A state in which the slot is unacked (it holds the frame 1 with the payload 0x41 for
  channel 4) and every source has something to send: the tunnel is open, a client is
  connected on channel 4, both timers have fired, and the frame just received is the
  request 0x01 on the command channel. The wakeup reports a byte on standard input, a
  byte from the tunnel and a message of one byte from the client.\<close>

definition busy_example :: main_t where
  "busy_example =
     received (unacked_example\<lparr>have_tun := True, client_socket := (\<lambda>i. i = 4),
                 rexmit_fired := True, ipaddr_fired := True\<rparr>)
       RETHOS_FRAME_TYPE_DATA 9 CMD_CHANNEL [CMD_GET_MCU_IP_ADDR]"

definition busy_wakeup :: wakeup where
  "busy_wakeup = \<lparr> interrupted = False, serial_ready = None, stdin_ready = Some [0x42],
     tun_ready = Some [0x43],
     chan_ready = (\<lambda>i. if i = 4 then Some [0, 0, 0, 1, 0x44] else None) \<rparr>"

subsection \<open>Frames without a consumer, and with two\<close>

text \<open>A first \<open>DATA\<close> frame on channel 4 when no client is connected there, and a first
  \<open>DATA\<close> frame on channel 1 when a client is connected on channel 1.\<close>

definition no_client_example :: main_t where
  "no_client_example = received (main_init rsp_example False) RETHOS_FRAME_TYPE_DATA 7 4 [0x41]"

definition stdin_client_example :: main_t where
  "stdin_client_example =
     received ((main_init rsp_example False)\<lparr>client_socket := (\<lambda>i. i = 1)\<rparr>)
       RETHOS_FRAME_TYPE_DATA 7 STDIN_CHANNEL [0x41]"

section \<open>Plain \<open>char\<close> compared with a constant\<close>

lemma char_eq_unsigned [simp]: "char_eq Char_unsigned c K \<longleftrightarrow> c = K"
  by (simp add: char_eq_def char_value_def word_uint_eq_iff)

lemma char_eq_signed: "char_eq Char_signed c K \<longleftrightarrow> c = K \<and> uint K < 128"
proof
  assume a: "char_eq Char_signed c K"
  then have e: "sint c = uint K" by (simp add: char_eq_def char_value_def)
  have "word_of_int (sint c) = (word_of_int (uint K) :: u8)" by (simp only: e)
  then have "c = K" by simp
  moreover have "uint K < 128" using sint_lt [of c] e by simp
  ultimately show "c = K \<and> uint K < 128" by simp
next
  assume b: "c = K \<and> uint K < 128"
  have "sint K = signed_take_bit 7 (uint K)" by (simp add: sint_uint)
  also have "\<dots> = uint K"
  proof (rule signed_take_bit_int_eq_self)
    have "- (2 ^ 7) \<le> (0 :: int)" by simp
    also have "\<dots> \<le> uint K" by simp
    finally show "- (2 ^ 7) \<le> uint K" .
    show "uint K < 2 ^ 7" using b by simp
  qed
  finally show "char_eq Char_signed c K" using b by (simp add: char_eq_def char_value_def)
qed


lemma no_escape_signed [simp]:
  "\<not> char_eq Char_signed c RETHOS_ESC_CHAR"
  "\<not> char_eq Char_signed c RETHOS_FRAME_START"
  "\<not> char_eq Char_signed c RETHOS_FRAME_END"
  by (simp_all add: char_eq_signed RETHOS_ESC_CHAR_def RETHOS_FRAME_START_def
      RETHOS_FRAME_END_def)

lemma char_eq_literal_esc [simp]: "char_eq sg c RETHOS_LITERAL_ESC \<longleftrightarrow> c = RETHOS_LITERAL_ESC"
  by (cases sg) (simp_all add: char_eq_signed RETHOS_LITERAL_ESC_def)

section \<open>The checksum and the codec\<close>

lemma unat_u8_le: "unat (d :: u8) \<le> 255"
  using unsigned_less [of d, where 'a = nat] by simp

lemma unat_u16_le: "unat (d :: u16) \<le> 65535"
  using unsigned_less [of d, where 'a = nat] by simp

lemma unat_ucast_u8: "unat (ucast (d :: u8) :: u16) = unat d"
  using unat_u8_le [of d] by (simp add: unsigned_ucast_eq take_bit_nat_eq_self)

lemma unat_and_255: "unat ((s :: u16) AND 0xff) = unat s mod 256"
proof -
  have "(0xff :: u16) = mask 8" by (simp add: mask_eq_exp_minus_1)
  then have "s AND 0xff = take_bit 8 s" by (simp only: take_bit_eq_mask)
  then show ?thesis by (simp add: unat_mod take_bit_eq_mod)
qed

lemma unat_reduce: "unat (fletcher16_reduce s) = unat s mod 256 + unat s div 256"
proof -
  have a: "unat (s AND 0xff) = unat s mod 256" by (rule unat_and_255)
  have b: "unat (drop_bit 8 s) = unat s div 256"
    by (simp add: drop_bit_eq_div unat_div)
  have "unat s div 256 \<le> 255" using unat_u16_le [of s] by simp
  moreover have "unat s mod 256 \<le> 255" by simp
  ultimately have "unat (s AND 0xff) + unat (drop_bit 8 s) < 2 ^ LENGTH(16)"
    using a b by simp
  then have "unat ((s AND 0xff) + drop_bit 8 s) = unat (s AND 0xff) + unat (drop_bit 8 s)"
    by (simp only: unat_add_lem)
  then show ?thesis by (simp only: fletcher16_reduce_def a b)
qed

lemma reduce_mod255: "((n::nat) mod 256 + n div 256) mod 255 = n mod 255"
proof -
  have "n = 255 * (n div 256) + (n mod 256 + n div 256)"
    using div_mult_mod_eq [of n 256] by simp
  then have "n mod 255 = (255 * (n div 256) + (n mod 256 + n div 256)) mod 255"
    by simp
  also have "\<dots> = (n mod 256 + n div 256) mod 255"
    by (simp only: mod_mult_self4)
  finally show ?thesis by simp
qed

lemma fl_abs_append: "fl_abs (xs @ ys) p = fl_abs ys (fl_abs xs p)"
  by (simp add: fl_abs_def)

lemma fl_abs_Cons: "fl_abs (d # ds) (a, b) = fl_abs ds ((a + unat d) mod 255, (b + (a + unat d) mod 255) mod 255)"
  by (simp add: fl_abs_def fl_step_def Let_def)

lemma fl_abs_mod: "fl_abs ds (a mod 255, b mod 255) = fl_abs ds (a, b) \<or> ds = []"
proof (cases ds)
  case Nil then show ?thesis by simp
next
  case (Cons d ds')
  have "fl_abs (d # ds') (a mod 255, b mod 255) = fl_abs (d # ds') (a, b)"
    by (simp only: fl_abs_Cons mod_add_left_eq)
  with Cons show ?thesis by simp
qed

lemma fletcher16_block_bounds:
  "unat s1 \<le> a \<Longrightarrow> unat s2 \<le> c \<Longrightarrow> a + 255 * length ds \<le> 65535 \<Longrightarrow>
   c + length ds * a + 255 * tri (length ds) \<le> 65535 \<Longrightarrow>
   fletcher16_block ds (s1, s2) = (t1, t2) \<Longrightarrow>
   unat t1 \<le> a + 255 * length ds \<and> unat t2 \<le> c + length ds * a + 255 * tri (length ds)
   \<and> unat s1 \<le> unat t1 \<and> unat s2 \<le> unat t2
   \<and> fl_abs ds (unat s1, unat s2) = (if ds = [] then (unat t1, unat t2) else (unat t1 mod 255, unat t2 mod 255))"
proof (induction ds arbitrary: s1 s2 a c)
  case Nil
  then show ?case by (simp add: fl_abs_def)
next
  case (Cons d ds)
  let ?u1 = "s1 + ucast d"
  let ?u2 = "s2 + ?u1"
  have d: "unat (ucast d :: u16) \<le> 255" using unat_u8_le [of d] by (simp add: unat_ucast_u8)
  have la: "a + 255 \<le> 65535" using Cons.prems(3) by simp
  have u1: "unat ?u1 = unat s1 + unat d"
  proof -
    have "unat s1 + unat (ucast d :: u16) < 2 ^ LENGTH(16)" using d Cons.prems(1) la by simp
    then have "unat ?u1 = unat s1 + unat (ucast d :: u16)" by (simp only: unat_add_lem)
    then show ?thesis by (simp only: unat_ucast_u8)
  qed
  have lc: "c + a + 255 \<le> 65535" using Cons.prems(4) by simp
  have u2: "unat ?u2 = unat s2 + unat s1 + unat d"
  proof -
    have "unat s2 + unat ?u1 < 2 ^ LENGTH(16)" using u1 d Cons.prems(1,2) lc by (simp add: unat_ucast_u8)
    then have "unat ?u2 = unat s2 + unat ?u1" by (simp only: unat_add_lem)
    then show ?thesis using u1 by simp
  qed
  have b1: "unat ?u1 \<le> a + 255" using u1 Cons.prems(1) unat_u8_le [of d] by simp
  have b2: "unat ?u2 \<le> c + a + 255" using u2 Cons.prems(1,2) unat_u8_le [of d] by simp
  have p3: "(a + 255) + 255 * length ds \<le> 65535" using Cons.prems(3) by simp
  have e: "(c + a + 255) + length ds * (a + 255) + 255 * tri (length ds)
        = c + length (d # ds) * a + 255 * tri (length (d # ds))"
    by (simp add: algebra_simps)
  have p4: "(c + a + 255) + length ds * (a + 255) + 255 * tri (length ds) \<le> 65535"
    using Cons.prems(4) e by simp
  have r: "fletcher16_block ds (?u1, ?u2) = (t1, t2)"
    using Cons.prems(5) by (simp add: Let_def)
  note ih = Cons.IH [OF b1 b2 p3 p4 r]
  have c1: "unat t1 \<le> a + 255 * length (d # ds)" using ih by simp
  have c2: "unat t2 \<le> c + length (d # ds) * a + 255 * tri (length (d # ds))"
    using ih e by simp
  have c3: "unat s1 \<le> unat t1" using ih u1 by simp
  have c4: "unat s2 \<le> unat t2" using ih u2 by simp
  have "fl_abs (d # ds) (unat s1, unat s2) = fl_abs ds ((unat ?u1) mod 255, (unat s2 + (unat ?u1) mod 255) mod 255)"
    using u1 by (simp only: fl_abs_Cons)
  also have "\<dots> = fl_abs ds (unat ?u1 mod 255, unat ?u2 mod 255)"
    using u1 u2 by (simp add: mod_add_right_eq add.assoc)
  finally have f: "fl_abs (d # ds) (unat s1, unat s2) = fl_abs ds (unat ?u1 mod 255, unat ?u2 mod 255)" .
  have c5: "fl_abs (d # ds) (unat s1, unat s2) = (unat t1 mod 255, unat t2 mod 255)"
  proof (cases "ds = []")
    case True
    with r have t: "t1 = ?u1" "t2 = ?u2" by auto
    have "fl_abs ds (unat ?u1 mod 255, unat ?u2 mod 255) = (unat ?u1 mod 255, unat ?u2 mod 255)"
      using True by (simp add: fl_abs_def)
    with f show ?thesis by (simp only: t)
  next
    case False
    then have "fl_abs ds (unat ?u1 mod 255, unat ?u2 mod 255) = fl_abs ds (unat ?u1, unat ?u2)"
      using fl_abs_mod [of ds "unat ?u1" "unat ?u2"] by simp
    then show ?thesis using f ih False by simp
  qed
  show ?case using c1 c2 c3 c4 c5 by simp
qed

lemma tri_mono: "k \<le> m \<Longrightarrow> tri k \<le> tri m"
proof (induction m)
  case 0
  then show ?case by simp
next
  case (Suc m)
  then show ?case by (cases "k = Suc m") auto
qed

lemma tri_20: "tri 20 = 210"
  by (simp add: eval_nat_numeral)

lemma tri_le_210: "k \<le> 20 \<Longrightarrow> tri k \<le> 210"
  using tri_mono [of k 20] by (simp only: tri_20)

lemma fl_inv_reduce: "0 < unat s \<Longrightarrow> fl_inv (fletcher16_reduce s)"
proof -
  assume p: "0 < unat s"
  have "unat s div 256 \<le> 255" using unat_u16_le [of s] by simp
  moreover have "unat s mod 256 \<le> 255" by simp
  moreover have "0 < unat s mod 256 + unat s div 256"
    using p by (cases "unat s < 256") (simp_all add: div_greater_zero_iff)
  ultimately show ?thesis by (simp add: fl_inv_def unat_reduce)
qed

lemma unat_reduce_mod255: "unat (fletcher16_reduce s) mod 255 = unat s mod 255"
  by (simp only: unat_reduce reduce_mod255)

lemma fletcher16_add_abs:
  "fl_inv s1 \<Longrightarrow> fl_inv s2 \<Longrightarrow> fletcher16_add data s1 s2 = (t1, t2) \<Longrightarrow>
   fl_inv t1 \<and> fl_inv t2 \<and>
   (unat t1 mod 255, unat t2 mod 255) = fl_abs data (unat s1 mod 255, unat s2 mod 255)"
proof (induction data s1 s2 rule: fletcher16_add.induct)
  case (1 data s1 s2)
  show ?case
  proof (cases "data = []")
    case True
    have "fletcher16_add [] s1 s2 = (s1, s2)" by (subst fletcher16_add.simps) simp
    then show ?thesis using True "1.prems" by (simp add: fl_abs_def)
  next
    case False
    define tlen where "tlen = (if length data > 20 then 20 else length data)"
    define blk where "blk = take tlen data"
    obtain u1 u2 where u: "fletcher16_block blk (s1, s2) = (u1, u2)"
      by (cases "fletcher16_block blk (s1, s2)") 
    have u': "(u1, u2) = fletcher16_block (take tlen data) (s1, s2)"
      using u by (simp add: blk_def)
    have tl: "tlen \<le> 20" "0 < tlen" "tlen \<le> length data"
      using False by (simp_all add: tlen_def)
    have lb: "length blk = tlen" using tl by (simp add: blk_def)
    have bne: "blk \<noteq> []" using lb tl by auto
    have a1: "unat s1 \<le> 510" "unat s2 \<le> 510" "0 < unat s1" "0 < unat s2"
      using "1.prems"(1,2) by (simp_all add: fl_inv_def)
    have h3: "510 + 255 * length blk \<le> 65535" using lb tl by simp
    have "length blk * 510 \<le> 20 * 510" using lb tl by simp
    moreover have "255 * tri (length blk) \<le> 255 * 210" using tri_le_210 [of tlen] lb tl by simp
    ultimately have h4: "510 + length blk * 510 + 255 * tri (length blk) \<le> 65535" by simp
    note bb = fletcher16_block_bounds [OF a1(1) a1(2) h3 h4 u]
    have pos: "0 < unat u1" "0 < unat u2" using bb a1 by auto
    have ab: "fl_abs blk (unat s1, unat s2) = (unat u1 mod 255, unat u2 mod 255)"
      using bb bne by simp
    have rec: "fletcher16_add data s1 s2
             = fletcher16_add (drop tlen data) (fletcher16_reduce u1) (fletcher16_reduce u2)"
      using False u by (subst fletcher16_add.simps) (simp add: tlen_def blk_def Let_def)
    then have r: "fletcher16_add (drop tlen data) (fletcher16_reduce u1) (fletcher16_reduce u2) = (t1, t2)"
      using "1.prems"(3) by simp
    have ih: "fl_inv t1 \<and> fl_inv t2 \<and>
       (unat t1 mod 255, unat t2 mod 255)
       = fl_abs (drop tlen data) (unat (fletcher16_reduce u1) mod 255, unat (fletcher16_reduce u2) mod 255)"
      using "1.IH" [OF False tlen_def refl u' fl_inv_reduce [OF pos(1)] fl_inv_reduce [OF pos(2)] r]
      by simp
    have "fl_abs data (unat s1 mod 255, unat s2 mod 255) = fl_abs data (unat s1, unat s2)"
      using fl_abs_mod [of data "unat s1" "unat s2"] False by simp
    also have "\<dots> = fl_abs (drop tlen data) (fl_abs blk (unat s1, unat s2))"
      using fl_abs_append [of blk "drop tlen data"] by (simp add: blk_def)
    also have "\<dots> = fl_abs (drop tlen data) (unat u1 mod 255, unat u2 mod 255)"
      by (simp only: ab)
    finally show ?thesis using ih by (simp add: unat_reduce_mod255)
  qed
qed

lemma reduce_canon:
  "fl_inv s \<Longrightarrow> unat (fletcher16_reduce s) = (if unat s mod 255 = 0 then 255 else unat s mod 255)"
proof -
  assume "fl_inv s"
  then have n: "0 < unat s" "unat s \<le> 510" by (simp_all add: fl_inv_def)
  define n where "n = unat s"
  consider "n < 255" | "n = 255" | "256 \<le> n \<and> n < 510" | "n = 510"
    using n unfolding n_def by linarith
  then have "n mod 256 + n div 256 = (if n mod 255 = 0 then 255 else n mod 255)"
  proof cases
    case 1
    then show ?thesis using n by (simp add: n_def)
  next
    case 2
    then show ?thesis by simp
  next
    case 3
    then have lo: "256 \<le> n" and hi: "n < 510" by simp_all
    have a: "n - 256 < 256" using lo hi by arith
    have b: "n - 255 < 255" using lo hi by arith
    have d: "n div 256 = 1" using lo a by (simp add: div_if)
    have m: "n mod 256 = n - 256" using lo a by (simp add: mod_if)
    have k: "n mod 255 = n - 255" using lo b by (simp add: mod_if)
    show ?thesis using lo d m k by simp
  next
    case 4
    then show ?thesis by simp
  qed
  then show ?thesis by (simp add: unat_reduce n_def)
qed

lemma reduce_eq:
  "fl_inv s \<Longrightarrow> fl_inv t \<Longrightarrow> unat s mod 255 = unat t mod 255 \<Longrightarrow>
   fletcher16_reduce s = fletcher16_reduce t"
proof -
  assume "fl_inv s" "fl_inv t" "unat s mod 255 = unat t mod 255"
  then have "unat (fletcher16_reduce s) = unat (fletcher16_reduce t)"
    by (simp add: reduce_canon)
  then show ?thesis by (simp only: word_unat_eq_iff)
qed

lemma fin_eq:
  "fl_inv s1 \<Longrightarrow> fl_inv s2 \<Longrightarrow> fl_inv t1 \<Longrightarrow> fl_inv t2 \<Longrightarrow>
   (unat s1 mod 255, unat s2 mod 255) = (unat t1 mod 255, unat t2 mod 255) \<Longrightarrow>
   fletcher16_fin s1 s2 = fletcher16_fin t1 t2"
  using reduce_eq [of s1 t1] reduce_eq [of s2 t2] by (simp add: fletcher16_fin_def)

lemma rx_sums_append: "rx_sums (xs @ ys) p = rx_sums ys (rx_sums xs p)"
  by (induction xs arbitrary: p) simp_all

lemma rx_sums_abs:
  "fl_inv (fst p) \<Longrightarrow> fl_inv (snd p) \<Longrightarrow>
   fl_inv (fst (rx_sums cs p)) \<and> fl_inv (snd (rx_sums cs p)) \<and>
   (unat (fst (rx_sums cs p)) mod 255, unat (snd (rx_sums cs p)) mod 255)
     = fl_abs cs (unat (fst p) mod 255, unat (snd p) mod 255)"
proof (induction cs arbitrary: p)
  case Nil
  then show ?case by (simp add: fl_abs_def)
next
  case (Cons c cs)
  obtain t1 t2 where t: "fletcher16_add [c] (fst p) (snd p) = (t1, t2)"
    by (cases "fletcher16_add [c] (fst p) (snd p)")
  note st = fletcher16_add_abs [OF Cons.prems(1) Cons.prems(2) t]
  have "fl_inv (fst (t1, t2))" "fl_inv (snd (t1, t2))" using st by simp_all
  note ih = Cons.IH [OF this]
  have "fl_abs (c # cs) (unat (fst p) mod 255, unat (snd p) mod 255)
      = fl_abs cs (fl_abs [c] (unat (fst p) mod 255, unat (snd p) mod 255))"
    using fl_abs_append [of "[c]" cs] by simp
  then show ?case using ih st t by simp
qed

lemma fl_inv_FF: "fl_inv 0xFF"
  by (simp add: fl_inv_def)

text \<open>Sender and receiver compute the same checksum.\<close>

lemma checksum_agree:
  "fletcher16_add pre 0xFF 0xFF = (f1, f2) \<Longrightarrow> fletcher16_add data f1 f2 = (g1, g2) \<Longrightarrow>
   rx_sums (pre @ data) (0xFF, 0xFF) = (r1, r2) \<Longrightarrow>
   fletcher16_fin r1 r2 = fletcher16_fin g1 g2"
proof -
  assume f: "fletcher16_add pre 0xFF 0xFF = (f1, f2)"
    and g: "fletcher16_add data f1 f2 = (g1, g2)"
    and r: "rx_sums (pre @ data) (0xFF, 0xFF) = (r1, r2)"
  note a = fletcher16_add_abs [OF fl_inv_FF fl_inv_FF f]
  have i: "fl_inv f1" "fl_inv f2" using a by simp_all
  note b = fletcher16_add_abs [OF i g]
  have "fl_inv (fst (0xFF :: u16, 0xFF :: u16))" "fl_inv (snd (0xFF :: u16, 0xFF :: u16))"
    by (simp_all add: fl_inv_FF)
  note c = rx_sums_abs [OF this, of "pre @ data"]
  have "(unat r1 mod 255, unat r2 mod 255) = (unat g1 mod 255, unat g2 mod 255)"
    using a b c r by (simp add: fl_abs_append)
  moreover have "fl_inv r1" "fl_inv r2" using c r by simp_all
  moreover have "fl_inv g1" "fl_inv g2" using b by simp_all
  ultimately show ?thesis by (rule_tac fin_eq) simp_all
qed

lemma u16_bytes:
  "(ucast (ucast (x :: u16) :: u8) :: u16) OR push_bit 8 (ucast (ucast (drop_bit 8 x) :: u8)) = x"
  by (rule bit_word_eqI) (auto simp add: bit_simps)

lemma u16_bytes_masked:
  "(ucast (ucast ((x :: u16) AND 0xFF) :: u8) :: u16) OR push_bit 8 (ucast (ucast (drop_bit 8 x) :: u8)) = x"
proof -
  have m: "(0xFF :: u16) = mask 8" by (simp add: mask_eq_exp_minus_1)
  have "(ucast (x AND mask 8) :: u8) = ucast x"
    by (rule bit_word_eqI) (auto simp add: bit_simps)
  then have "(ucast (x AND 0xFF) :: u8) = ucast x" by (simp only: m)
  then show ?thesis by (simp only: u16_bytes)
qed

lemma load_buf_upd: "load_buf (f(n := c)) (Suc n) = load_buf f n @ [c]"
  by (simp add: load_buf_def)

lemma feed_append:
  "feed Char_unsigned s (xs @ ys) = (fst (feed Char_unsigned s xs) @ fst (feed Char_unsigned (snd (feed Char_unsigned s xs)) ys), snd (feed Char_unsigned (snd (feed Char_unsigned s xs)) ys))"
  by (induction xs arbitrary: s) (simp_all add: split_def Let_def)

lemma serial_switch_no_escape: "\<not> in_escape (snd (serial_switch s c))"
  by (simp add: serial_switch_def update_checksum_def done_char_def handle_corrupt_frame_def
      drop_frame_state_def split_def Let_def split: line_state_t.splits)

lemma clear_escape: "\<not> in_escape s \<Longrightarrow> s\<lparr>in_escape := False\<rparr> = s"
  by (cases s) simp

lemma feed_escaped_byte:
  assumes "\<not> in_escape s"
  shows "snd (feed Char_unsigned s (write_escaped Char_unsigned [c])) = snd (serial_switch s c)"
    and "loud (fst (feed Char_unsigned s (write_escaped Char_unsigned [c]))) = loud [fst (serial_switch s c)]"
  using assms
  by (simp_all add: write_escaped_def esc_esc_def serial_handle_byte_def split_def Let_def
      loud_def RETHOS_ESC_CHAR_def RETHOS_LITERAL_ESC_def clear_escape [OF assms])

lemma write_escaped_Cons: "write_escaped Char_unsigned (c # cs) = write_escaped Char_unsigned [c] @ write_escaped Char_unsigned cs"
  by (simp add: write_escaped_def)

lemma write_escaped_append: "write_escaped Char_unsigned (xs @ ys) = write_escaped Char_unsigned xs @ write_escaped Char_unsigned ys"
  by (simp add: write_escaped_def)

lemma feed_escaped:
  "\<not> in_escape s \<Longrightarrow>
   snd (feed Char_unsigned s (write_escaped Char_unsigned cs)) = snd (switch_feed s cs) \<and>
   loud (fst (feed Char_unsigned s (write_escaped Char_unsigned cs))) = loud (fst (switch_feed s cs))"
proof (induction cs arbitrary: s)
  case Nil
  then show ?case by (simp add: write_escaped_def)
next
  case (Cons c cs)
  note b = feed_escaped_byte [OF Cons.prems, of c]
  note ih = Cons.IH [OF serial_switch_no_escape [of s c]]
  have "feed Char_unsigned s (write_escaped Char_unsigned (c # cs)) =
     (fst (feed Char_unsigned s (write_escaped Char_unsigned [c])) @ fst (feed Char_unsigned (snd (feed Char_unsigned s (write_escaped Char_unsigned [c]))) (write_escaped Char_unsigned cs)),
      snd (feed Char_unsigned (snd (feed Char_unsigned s (write_escaped Char_unsigned [c]))) (write_escaped Char_unsigned cs)))"
    by (simp only: write_escaped_Cons [of c cs] feed_append)
  then show ?case using b ih by (simp add: loud_def)
qed

lemmas rx_defs = serial_switch_def update_checksum_def done_char_def handle_corrupt_frame_def
  drop_frame_state_def split_def Let_def

lemma feed_start_frame:
  "fst (feed Char_unsigned s start_frame) = [NO_EVENT, NO_EVENT]"
  "state (snd (feed Char_unsigned s start_frame)) = WAIT_FRAMETYPE"
  "\<not> in_escape (snd (feed Char_unsigned s start_frame))"
  "sum1 (snd (feed Char_unsigned s start_frame)) = 0xFF"
  "sum2 (snd (feed Char_unsigned s start_frame)) = 0xFF"
  by (simp_all add: start_frame_def serial_handle_byte_def done_char_def split_def Let_def
      RETHOS_ESC_CHAR_def RETHOS_FRAME_START_def RETHOS_LITERAL_ESC_def)

lemma switch_feed_header:
  assumes "state s = WAIT_FRAMETYPE" "\<not> in_escape s"
  shows "rx_holds (snd (switch_feed s [ft, lo, hi, ch])) IN_FRAME ft
           (ucast lo OR push_bit 8 (ucast hi)) ch [] (rx_sums [ft, lo, hi, ch] (sum1 s, sum2 s))"
    and "loud (fst (switch_feed s [ft, lo, hi, ch])) = []"
  using assms by (simp_all add: rx_holds_def rx_defs loud_def load_buf_def)

lemma switch_feed_payload:
  "rx_holds s IN_FRAME ft sq ch pl sums \<Longrightarrow> length pl + length data \<le> MTU \<Longrightarrow>
   rx_holds (snd (switch_feed s data)) IN_FRAME ft sq ch (pl @ data) (rx_sums data sums) \<and>
   loud (fst (switch_feed s data)) = []"
proof (induction data arbitrary: s pl sums)
  case Nil
  then show ?case by (simp add: loud_def)
next
  case (Cons c data)
  have n: "numbytes s < MTU" using Cons.prems by (simp add: rx_holds_def)
  have st: "state s = IN_FRAME" using Cons.prems by (simp add: rx_holds_def)
  have ev: "fst (serial_switch s c) = NO_EVENT" using n st by (simp add: rx_defs)
  have a: "rx_holds (snd (serial_switch s c)) IN_FRAME ft sq ch (pl @ [c])
             (fletcher16_add [c] (fst sums) (snd sums))"
    using Cons.prems(1) n by (auto simp add: rx_holds_def rx_defs load_buf_upd)
  have b: "length (pl @ [c]) + length data \<le> MTU" using Cons.prems(2) by simp
  note ih = Cons.IH [OF a b]
  show ?case using ih ev by (simp add: loud_def)
qed

lemma feed_end_frame:
  assumes "rx_holds s IN_FRAME ft sq ch pl sums"
  shows "rx_holds (snd (feed Char_unsigned s end_frame)) WAIT_CHECKSUM_1 ft sq ch pl sums"
    and "fst (feed Char_unsigned s end_frame) = [NO_EVENT, NO_EVENT]"
  using assms
  by (simp_all add: rx_holds_def end_frame_def serial_handle_byte_def done_char_def split_def
      Let_def RETHOS_ESC_CHAR_def RETHOS_FRAME_START_def RETHOS_LITERAL_ESC_def
      RETHOS_FRAME_END_def)

lemma switch_feed_checksum:
  assumes "rx_holds s WAIT_CHECKSUM_1 ft sq ch pl sums"
    and "fletcher16_fin (fst sums) (snd sums) = ucast lo OR push_bit 8 (ucast hi)"
  shows "fst (switch_feed s [lo, hi]) = [NO_EVENT, FRAME_READY]"
    and "rx_holds (snd (switch_feed s [lo, hi])) WAIT_FRAMESTART ft sq ch pl sums"
  using assms by (auto simp add: rx_holds_def rx_defs)

lemma feed_escaped_byte_last:
  assumes "\<not> in_escape s"
  shows "last (fst (feed Char_unsigned s (write_escaped Char_unsigned [c]))) = fst (serial_switch s c)"
    and "fst (feed Char_unsigned s (write_escaped Char_unsigned [c])) \<noteq> []"
  using assms
  by (simp_all add: write_escaped_def esc_esc_def serial_handle_byte_def split_def Let_def
      RETHOS_ESC_CHAR_def RETHOS_LITERAL_ESC_def clear_escape [OF assms])

lemma loud_append: "loud (xs @ ys) = loud xs @ loud ys"
  by (simp add: loud_def)

lemma feed_checksum:
  assumes "rx_holds s WAIT_CHECKSUM_1 ft sq ch pl sums"
    and "fletcher16_fin (fst sums) (snd sums) = ucast lo OR push_bit 8 (ucast hi)"
  shows "loud (fst (feed Char_unsigned s (write_escaped Char_unsigned [lo, hi]))) = [FRAME_READY]"
    and "last (fst (feed Char_unsigned s (write_escaped Char_unsigned [lo, hi]))) = FRAME_READY"
    and "rx_holds (snd (feed Char_unsigned s (write_escaped Char_unsigned [lo, hi]))) WAIT_FRAMESTART ft sq ch pl sums"
proof -
  have ne: "\<not> in_escape s" using assms(1) by (simp add: rx_holds_def)
  note f = feed_escaped [OF ne, of "[lo, hi]"]
  note c = switch_feed_checksum [OF assms]
  show "loud (fst (feed Char_unsigned s (write_escaped Char_unsigned [lo, hi]))) = [FRAME_READY]"
    using f c(1) by (simp add: loud_def)
  show "rx_holds (snd (feed Char_unsigned s (write_escaped Char_unsigned [lo, hi]))) WAIT_FRAMESTART ft sq ch pl sums"
    using f c(2) by simp
  define s' where "s' = snd (feed Char_unsigned s (write_escaped Char_unsigned [lo]))"
  have s': "s' = snd (serial_switch s lo)"
    using feed_escaped_byte(1) [OF ne, of lo] by (simp add: s'_def)
  then have ne': "\<not> in_escape s'" by (simp add: serial_switch_no_escape)
  have "feed Char_unsigned s (write_escaped Char_unsigned [lo, hi]) =
     (fst (feed Char_unsigned s (write_escaped Char_unsigned [lo])) @ fst (feed Char_unsigned s' (write_escaped Char_unsigned [hi])),
      snd (feed Char_unsigned s' (write_escaped Char_unsigned [hi])))"
    by (simp only: write_escaped_Cons [of lo "[hi]"] feed_append s'_def)
  then have "last (fst (feed Char_unsigned s (write_escaped Char_unsigned [lo, hi]))) = last (fst (feed Char_unsigned s' (write_escaped Char_unsigned [hi])))"
    using feed_escaped_byte_last(2) [OF ne', of hi] by simp
  also have "\<dots> = fst (serial_switch s' hi)" by (rule feed_escaped_byte_last(1) [OF ne'])
  also have "\<dots> = FRAME_READY" using c(1) s' by simp
  finally show "last (fst (feed Char_unsigned s (write_escaped Char_unsigned [lo, hi]))) = FRAME_READY" .
qed

text \<open>Decoding the encoding of a frame, from any state of the receiver.\<close>

lemma feed_send_frame:
  assumes "length data \<le> MTU"
  shows "loud (fst (feed Char_unsigned s (send_frame Char_unsigned data ch sq ft))) = [FRAME_READY]"
    and "last (fst (feed Char_unsigned s (send_frame Char_unsigned data ch sq ft))) = FRAME_READY"
    and "rx_holds (snd (feed Char_unsigned s (send_frame Char_unsigned data ch sq ft))) WAIT_FRAMESTART ft sq ch data
           (rx_sums ([ft, ucast (sq AND 0xFF), ucast (drop_bit 8 sq), ch] @ data) (0xFF, 0xFF))"
proof -
  define pre where "pre = [ft, ucast (sq AND 0xFF), ucast (drop_bit 8 sq), ch]"
  obtain f1 f2 where f: "fletcher16_add pre 0xFF 0xFF = (f1, f2)"
    by (cases "fletcher16_add pre 0xFF 0xFF")
  obtain g1 g2 where g: "fletcher16_add data f1 f2 = (g1, g2)"
    by (cases "fletcher16_add data f1 f2")
  define cksum where "cksum = fletcher16_fin g1 g2"
  define post where "post = [ucast cksum :: u8, ucast (drop_bit 8 cksum)]"
  have wire: "send_frame Char_unsigned data ch sq ft =
      start_frame @ write_escaped Char_unsigned pre @ write_escaped Char_unsigned data @ end_frame @ write_escaped Char_unsigned post"
    using f g by (simp add: send_frame_def pre_def post_def cksum_def Let_def)
  define s1 where "s1 = snd (feed Char_unsigned s start_frame)"
  define s2 where "s2 = snd (feed Char_unsigned s1 (write_escaped Char_unsigned pre))"
  define s3 where "s3 = snd (feed Char_unsigned s2 (write_escaped Char_unsigned data))"
  define s4 where "s4 = snd (feed Char_unsigned s3 end_frame)"
  define s5 where "s5 = snd (feed Char_unsigned s4 (write_escaped Char_unsigned post))"
  define sums where "sums = rx_sums (pre @ data) (0xFF, 0xFF)"
  have e1: "loud (fst (feed Char_unsigned s start_frame)) = []"
    by (simp add: feed_start_frame loud_def)
  have n1: "\<not> in_escape s1" and t1: "state s1 = WAIT_FRAMETYPE"
    and m1: "(sum1 s1, sum2 s1) = (0xFF, 0xFF)"
    by (simp_all add: s1_def feed_start_frame)
  have r2: "rx_holds s2 IN_FRAME ft sq ch [] (rx_sums pre (0xFF, 0xFF))"
    and e2: "loud (fst (feed Char_unsigned s1 (write_escaped Char_unsigned pre))) = []"
    using feed_escaped [OF n1, of pre] switch_feed_header [OF t1 n1, of ft "ucast (sq AND 0xFF)" "ucast (drop_bit 8 sq)" ch]
    by (simp_all only: s2_def pre_def m1 u16_bytes_masked)
  have n2: "\<not> in_escape s2" using r2 by (simp add: rx_holds_def)
  have len: "length ([] :: u8 list) + length data \<le> MTU" using assms by simp
  have r3: "rx_holds s3 IN_FRAME ft sq ch data sums"
    and e3: "loud (fst (feed Char_unsigned s2 (write_escaped Char_unsigned data))) = []"
    using feed_escaped [OF n2, of data] switch_feed_payload [OF r2 len]
    by (simp_all add: s3_def sums_def rx_sums_append)
  have r4: "rx_holds s4 WAIT_CHECKSUM_1 ft sq ch data sums"
    and e4: "loud (fst (feed Char_unsigned s3 end_frame)) = []"
    using feed_end_frame [OF r3] by (simp_all add: s4_def loud_def)
  have ck: "fletcher16_fin (fst sums) (snd sums)
          = ucast (ucast cksum :: u8) OR push_bit 8 (ucast (ucast (drop_bit 8 cksum) :: u8))"
    using checksum_agree [OF f g, of "fst sums" "snd sums"]
    by (simp add: sums_def cksum_def u16_bytes)
  note fin = feed_checksum [OF r4 ck]
  have dec: "feed Char_unsigned s (send_frame Char_unsigned data ch sq ft) =
     (fst (feed Char_unsigned s start_frame) @ fst (feed Char_unsigned s1 (write_escaped Char_unsigned pre)) @ fst (feed Char_unsigned s2 (write_escaped Char_unsigned data))
        @ fst (feed Char_unsigned s3 end_frame) @ fst (feed Char_unsigned s4 (write_escaped Char_unsigned post)), s5)"
    by (simp only: wire feed_append s1_def s2_def s3_def s4_def s5_def fst_conv snd_conv)
  show "loud (fst (feed Char_unsigned s (send_frame Char_unsigned data ch sq ft))) = [FRAME_READY]"
    using e1 e2 e3 e4 fin(1) by (simp add: dec loud_append post_def)
  have "fst (feed Char_unsigned s4 (write_escaped Char_unsigned post)) \<noteq> []"
    using fin(1) by (auto simp add: post_def loud_def)
  then show "last (fst (feed Char_unsigned s (send_frame Char_unsigned data ch sq ft))) = FRAME_READY"
    using fin(2) by (simp add: dec post_def)
  show "rx_holds (snd (feed Char_unsigned s (send_frame Char_unsigned data ch sq ft))) WAIT_FRAMESTART ft sq ch data
           (rx_sums ([ft, ucast (sq AND 0xFF), ucast (drop_bit 8 sq), ch] @ data) (0xFF, 0xFF))"
    using fin(3) by (simp add: dec s5_def post_def sums_def pre_def)
qed

section \<open>The link engine\<close>

lemma loud_ready: "loud evs = [FRAME_READY] \<Longrightarrow> filter (\<lambda>e. e = FRAME_READY) evs = [FRAME_READY]"
proof -
  assume a: "loud evs = [FRAME_READY]"
  have "filter (\<lambda>e. e = FRAME_READY) evs = filter (\<lambda>e. e = FRAME_READY) (loud evs)"
    by (simp add: loud_def) (rule filter_cong, auto)
  then show ?thesis using a by simp
qed

lemma load_store_buf: "load_buf (store_buf buf bs) (length bs) = bs"
proof -
  have "map (store_buf buf bs) [0..<length bs] = map ((!) bs) [0..<length bs]"
    by (rule map_cong) (simp_all add: store_buf_def)
  then show ?thesis by (simp only: load_buf_def map_nth)
qed

lemma store_buf_above: "length bs \<le> i \<Longrightarrow> store_buf buf bs i = buf i"
  by (simp add: store_buf_def)


lemma feed_snoc:
  "feed Char_unsigned s (cs @ [c]) =
     (fst (feed Char_unsigned s cs) @ [fst (serial_handle_byte Char_unsigned (snd (feed Char_unsigned s cs)) c)],
      snd (serial_handle_byte Char_unsigned (snd (feed Char_unsigned s cs)) c))"
  by (simp add: feed_append split_def Let_def)

text \<open>Bytes that raise no event are consumed one by one.\<close>

lemma serial_loop_quiet:
  "loud (fst (feed Char_unsigned (serial m) bs)) = [] \<Longrightarrow>
   serial_loop Char_unsigned m (bs @ rest) = serial_loop Char_unsigned (m\<lparr>serial := snd (feed Char_unsigned (serial m) bs)\<rparr>) rest"
proof (induction bs arbitrary: m)
  case Nil
  then show ?case by simp
next
  case (Cons b bs)
  obtain ev s' where h: "serial_handle_byte Char_unsigned (serial m) b = (ev, s')"
    by (cases "serial_handle_byte Char_unsigned (serial m) b")
  have ev: "ev = NO_EVENT" and q: "loud (fst (feed Char_unsigned s' bs)) = []"
    using Cons.prems h by (auto simp add: loud_def split_def Let_def split: if_splits)
  have "loud (fst (feed Char_unsigned (serial (m\<lparr>serial := s'\<rparr>)) bs)) = []" using q by simp
  note ih = Cons.IH [OF this]
  show ?case using h ev ih by (simp add: split_def Let_def)
qed

lemma loud_last:
  "loud evs = [e] \<Longrightarrow> last evs = e \<Longrightarrow> e \<noteq> NO_EVENT \<Longrightarrow> evs \<noteq> [] \<and> loud (butlast evs) = []"
proof (induction evs rule: rev_induct)
  case Nil
  then show ?case by (simp add: loud_def)
next
  case (snoc x xs)
  then show ?case by (simp add: loud_def)
qed

text \<open>A whole frame in the bytes of a read: the loop reaches the \<open>FRAME_READY\<close> branch
  with the frame decoded.\<close>

lemma serial_loop_frame:
  assumes "length data \<le> MTU"
  shows "serial_loop Char_unsigned m (send_frame Char_unsigned data ch sq ft @ rest) =
     (let m1 = m\<lparr>serial := snd (feed Char_unsigned (serial m) (send_frame Char_unsigned data ch sq ft))\<rparr>;
          (m2, e, serial_done) = handle_frame_ready m1
      in if serial_done then (m2, e, rest)
         else (let (m3, e', rest') = serial_loop Char_unsigned m2 rest in (m3, e @ e', rest')))"
proof -
  define w where "w = send_frame Char_unsigned data ch sq ft"
  note f = feed_send_frame [OF assms, of "serial m" ch sq ft]
  have wne: "w \<noteq> []" by (simp add: w_def send_frame_def split_def Let_def start_frame_def)
  then obtain bs b where w: "w = bs @ [b]" by (metis rev_exhaust)
  define s1 where "s1 = snd (feed Char_unsigned (serial m) bs)"
  have fs: "feed Char_unsigned (serial m) w = (fst (feed Char_unsigned (serial m) bs) @ [fst (serial_handle_byte Char_unsigned s1 b)],
      snd (serial_handle_byte Char_unsigned s1 b))"
    by (simp only: w feed_snoc s1_def)
  have l: "loud (fst (feed Char_unsigned (serial m) w)) = [FRAME_READY]" "last (fst (feed Char_unsigned (serial m) w)) = FRAME_READY"
    using f by (simp_all add: w_def)
  have ev: "fst (serial_handle_byte Char_unsigned s1 b) = FRAME_READY" using l(2) fs by simp
  have q: "loud (fst (feed Char_unsigned (serial m) bs)) = []"
    using loud_last [OF l(1) l(2)] fs by simp
  have "serial_loop Char_unsigned m (w @ rest) = serial_loop Char_unsigned (m\<lparr>serial := s1\<rparr>) (b # rest)"
    using serial_loop_quiet [OF q, of "b # rest"] by (simp add: w s1_def)
  also have "\<dots> = (let m1 = m\<lparr>serial := snd (feed Char_unsigned (serial m) w)\<rparr>;
          (m2, e, serial_done) = handle_frame_ready m1
      in if serial_done then (m2, e, rest)
         else (let (m3, e', rest') = serial_loop Char_unsigned m2 rest in (m3, e @ e', rest')))"
    using ev fs by (simp add: split_def Let_def)
  finally show ?thesis by (simp only: w_def)
qed

lemmas frame_types = RETHOS_FRAME_TYPE_DATA_def RETHOS_FRAME_TYPE_ACK_def RETHOS_FRAME_TYPE_NACK_def
lemmas channels = RESERVED_CHANNEL_def STDIN_CHANNEL_def CMD_CHANNEL_def TUNTAP_CHANNEL_def
lemmas link_sends = rethos_send_ack_frame_def rethos_send_nack_frame_def rethos_rexmit_data_frame_def

lemma num_channels: "unat (c :: u8) < NUM_CHANNELS"
  using unat_u8_le [of c] by (simp add: NUM_CHANNELS_def)

text \<open>What the handler does with a frame on a channel other than 0.\<close>

lemma handle_data_duplicate:
  assumes "channel (serial m) \<noteq> RESERVED_CHANNEL"
    and "received_data_frame (serial m)" and "in_seqno (serial m) = last_rcvd_seqno (serial m)"
  shows "handle_frame_ready m =
     (m\<lparr>stats := (stats m)\<lparr>serial_received := serial_received (stats m) + 1\<rparr>\<rparr>,
      [Send_frame [] RESERVED_CHANNEL (in_seqno (serial m)) RETHOS_FRAME_TYPE_ACK], True)"
  using assms num_channels [of "channel (serial m)"]
  by (simp add: handle_frame_ready_def link_sends Let_def)

lemma deliver_frame_serial:
  "in_seqno (serial (fst (deliver_frame m))) = in_seqno (serial m) \<and>
   channel (serial (fst (deliver_frame m))) = channel (serial m) \<and>
   numbytes (serial (fst (deliver_frame m))) = numbytes (serial m) \<and>
   frame (serial (fst (deliver_frame m))) = frame (serial m) \<and>
   received_data_frame (serial (fst (deliver_frame m))) = received_data_frame (serial m) \<and>
   last_rcvd_seqno (serial (fst (deliver_frame m))) = last_rcvd_seqno (serial m) \<and>
   client_socket (fst (deliver_frame m)) = client_socket m"
  by (simp add: deliver_frame_def rethos_send_data_frame_def Let_def split_def)

lemma deliver_frame_acks: "concat (map acked_seqno (snd (deliver_frame m))) = []"
  by (simp add: deliver_frame_def rethos_send_data_frame_def Let_def split_def
      frame_types)

lemma handle_data_new:
  assumes "channel (serial m) \<noteq> RESERVED_CHANNEL"
    and "\<not> (received_data_frame (serial m) \<and> in_seqno (serial m) = last_rcvd_seqno (serial m))"
  shows "handle_frame_ready m =
     (let s = serial m;
          m1 = m\<lparr>serial := s\<lparr>received_data_frame := True, last_rcvd_seqno := in_seqno s\<rparr>,
                 stats := (stats m)\<lparr>serial_received := serial_received (stats m) + 1,
                   lost_frames := lost_frames (stats m)
                     + word_of_int (uint (in_seqno s) - uint (last_rcvd_seqno s) - 1)\<rparr>\<rparr>;
          ack = Send_frame [] RESERVED_CHANNEL (in_seqno s) RETHOS_FRAME_TYPE_ACK
      in if numbytes s = 0 then (m1, [ack], True)
         else (fst (deliver_frame m1), ack # snd (deliver_frame m1), False))"
  using assms num_channels [of "channel (serial m)"]
  by (auto simp add: handle_frame_ready_def link_sends Let_def split_def)

lemma handle_data_after:
  assumes "channel (serial m) \<noteq> RESERVED_CHANNEL"
  shows "in_seqno (serial (fst (handle_frame_ready m))) = in_seqno (serial m) \<and>
      channel (serial (fst (handle_frame_ready m))) = channel (serial m) \<and>
      numbytes (serial (fst (handle_frame_ready m))) = numbytes (serial m) \<and>
      frame (serial (fst (handle_frame_ready m))) = frame (serial m) \<and>
      received_data_frame (serial (fst (handle_frame_ready m))) \<and>
      last_rcvd_seqno (serial (fst (handle_frame_ready m))) = in_seqno (serial m)"
proof (cases "received_data_frame (serial m) \<and> in_seqno (serial m) = last_rcvd_seqno (serial m)")
  case True
  then show ?thesis using handle_data_duplicate [OF assms] by simp
next
  case False
  show ?thesis using handle_data_new [OF assms False] by (simp add: Let_def deliver_frame_serial)
qed

lemma load_buf_1: "load_buf f (Suc 0) = [f 0]"
  by (simp add: load_buf_def)

lemmas example_defs = received_def main_init_def serial_init_def stats_init_def rsp_example_def
  rethos_send_data_frame_def Let_def store_buf_def load_buf_1 channels frame_types

lemma handle_control_done:
  "channel (serial m) = RESERVED_CHANNEL \<Longrightarrow> snd (snd (handle_frame_ready m))"
  using num_channels [of "channel (serial m)"]
  by (simp add: handle_frame_ready_def Let_def split_def)

lemma handle_ack_quiet:
  "channel (serial m) = RESERVED_CHANNEL \<Longrightarrow> frametype (serial m) = RETHOS_FRAME_TYPE_ACK \<Longrightarrow>
   fst (snd (handle_frame_ready m)) = []"
  using num_channels [of "channel (serial m)"]
  by (simp add: handle_frame_ready_def handle_control_frame_def Let_def split_def frame_types)

subsection \<open>A frame arriving on the serial line\<close>

lemma serial_switch_link:
  "out_seqno (snd (serial_switch s c)) = out_seqno s \<and>
   rexmit_seqno (snd (serial_switch s c)) = rexmit_seqno s \<and>
   rexmit_channel (snd (serial_switch s c)) = rexmit_channel s \<and>
   rexmit_numbytes (snd (serial_switch s c)) = rexmit_numbytes s \<and>
   rexmit_frame (snd (serial_switch s c)) = rexmit_frame s \<and>
   rexmit_acked (snd (serial_switch s c)) = rexmit_acked s \<and>
   received_data_frame (snd (serial_switch s c)) = received_data_frame s \<and>
   last_rcvd_seqno (snd (serial_switch s c)) = last_rcvd_seqno s"
  by (cases "state s")
     (simp_all add: serial_switch_def update_checksum_def done_char_def handle_corrupt_frame_def
       drop_frame_state_def split_def Let_def)

lemma serial_handle_byte_link: "link_state (snd (serial_handle_byte Char_unsigned s c)) = link_state s"
proof -
  have a: "link_state (snd (serial_switch (s\<lparr>in_escape := False\<rparr>) RETHOS_ESC_CHAR)) = link_state s"
    using serial_switch_link [of "s\<lparr>in_escape := False\<rparr>" RETHOS_ESC_CHAR]
    by (simp add: link_state_def)
  have b: "link_state (snd (serial_switch s c)) = link_state s"
    using serial_switch_link [of s c] by (simp add: link_state_def)
  show ?thesis
    using a b
    by (simp add: serial_handle_byte_def done_char_def handle_corrupt_frame_def
        drop_frame_state_def) (simp add: link_state_def)
qed

lemma feed_link: "link_state (snd (feed Char_unsigned s cs)) = link_state s"
  by (induction cs arbitrary: s) (simp_all add: split_def Let_def serial_handle_byte_link)

text \<open>The state in which the loop finds a frame complete: the receiver holds the frame,
  everything else is as before.\<close>

lemma frame_arrival:
  assumes "length data \<le> MTU"
  shows "frametype (snd (feed Char_unsigned s (send_frame Char_unsigned data ch sq ft))) = ft"
    and "in_seqno (snd (feed Char_unsigned s (send_frame Char_unsigned data ch sq ft))) = sq"
    and "channel (snd (feed Char_unsigned s (send_frame Char_unsigned data ch sq ft))) = ch"
    and "numbytes (snd (feed Char_unsigned s (send_frame Char_unsigned data ch sq ft))) = length data"
    and "load_buf (frame (snd (feed Char_unsigned s (send_frame Char_unsigned data ch sq ft)))) (length data) = data"
    and "link_state (snd (feed Char_unsigned s (send_frame Char_unsigned data ch sq ft))) = link_state s"
  using feed_send_frame(3) [OF assms, of s ch sq ft] feed_link [of s]
  by (simp_all add: rx_holds_def)

lemma deliver_frame_lost:
  "lost_frames (stats (fst (deliver_frame m))) = lost_frames (stats m)"
  by (simp add: deliver_frame_def rethos_send_data_frame_def Let_def split_def)

lemma wrap_wire:
  "send_frame Char_unsigned [0x41] 4 0 RETHOS_FRAME_TYPE_DATA =
     [0xBE, 0xEF, 0x01, 0x00, 0x00, 0x04, 0x41, 0xBE, 0xE5, 0x46, 0x4E]"
  by code_simp

lemma ack_wire:
  "send_frame Char_unsigned [] RESERVED_CHANNEL 0 RETHOS_FRAME_TYPE_ACK =
     [0xBE, 0xEF, 0x04, 0x00, 0x00, 0x00, 0xBE, 0xE5, 0x04, 0x10]"
  by code_simp

lemma cmd_wire:
  "send_frame Char_unsigned [CMD_GET_MCU_IP_ADDR] CMD_CHANNEL 1 RETHOS_FRAME_TYPE_DATA =
     [0xBE, 0xEF, 0x01, 0x01, 0x00, 0x02, 0x01, 0xBE, 0xE5, 0x05, 0x0E]"
  by code_simp

subsection \<open>Passes of the loop with one source\<close>

lemma channel_loop_idle: "(\<And>i. chan_ready w i = None) \<Longrightarrow> channel_loop w cs m = (m, [])"
  by (induction cs arbitrary: m) (simp_all add: channel_step_def)

lemma timers_section_idle:
  "\<not> stats_fired m \<Longrightarrow> \<not> rexmit_fired m \<Longrightarrow> \<not> ipaddr_fired m \<Longrightarrow> timers_section m = (m, [])"
  by (simp add: timers_section_def)

lemma main_iteration_stdin:
  assumes "\<not> stats_fired m" "\<not> rexmit_fired m" "\<not> ipaddr_fired m" "have_stdin m"
    and "bs \<noteq> []" and "length bs \<le> MTU"
  shows "main_iteration sg m (stdin_wakeup bs) =
     Some (rethos_send_data_frame (m\<lparr>inbuf := store_buf (inbuf m) bs\<rparr>) bs STDIN_CHANNEL)"
proof -
  have c: "channel_loop (stdin_wakeup bs) [0..<NUM_CHANNELS] m' = (m', [])" for m'
    by (rule channel_loop_idle) (simp add: stdin_wakeup_def no_wakeup_def)
  have s: "stdin_section (stdin_wakeup bs) m =
      (fst (rethos_send_data_frame (m\<lparr>inbuf := store_buf (inbuf m) bs\<rparr>) bs STDIN_CHANNEL),
       snd (rethos_send_data_frame (m\<lparr>inbuf := store_buf (inbuf m) bs\<rparr>) bs STDIN_CHANNEL), False)"
    using assms(4,5,6)
    by (simp add: stdin_section_def stdin_wakeup_def no_wakeup_def Let_def split_def load_store_buf)
  have t: "tun_section (stdin_wakeup bs) m' = (m', [], False)" for m'
    by (simp add: tun_section_def stdin_wakeup_def no_wakeup_def)
  have r: "serial_section sg (stdin_wakeup bs) m = Some (m, [])"
    by (simp add: serial_section_def stdin_wakeup_def no_wakeup_def)
  have i: "\<not> interrupted (stdin_wakeup bs)" by (simp add: stdin_wakeup_def no_wakeup_def)
  show ?thesis
    using assms(1,2,3) i
    by (simp add: main_iteration_def timers_section_idle r s t c Let_def)
qed

lemma send_data_frame_eq:
  "rethos_send_data_frame m data chan =
     (m\<lparr>serial := (serial m)\<lparr>out_seqno := out_seqno (serial m) + 1,
            rexmit_seqno := out_seqno (serial m) + 1, rexmit_channel := chan,
            rexmit_numbytes := length data,
            rexmit_frame := store_buf (rexmit_frame (serial m)) data, rexmit_acked := False\<rparr>,
         rexmit_timer := rexmit_timer_spec\<rparr>,
      [Send_frame data chan (out_seqno (serial m) + 1) RETHOS_FRAME_TYPE_DATA])"
  by (simp add: rethos_send_data_frame_def Let_def)

subsection \<open>The retransmission timer\<close>

lemma timer_elapse_periodic:
  "timer_elapse REXMIT_TIMEOUT rexmit_timer_spec = (True, rexmit_timer_spec)"
  by (simp add: timer_elapse_def rexmit_timer_spec_def REXMIT_TIMEOUT_def)

lemma timer_elapse_cancelled: "timer_elapse d cancel_timer_spec = (False, cancel_timer_spec)"
  by (simp add: timer_elapse_def cancel_timer_spec_def)

lemma rexmit_round_unacked:
  assumes "rexmit_timer m = rexmit_timer_spec" "\<not> rexmit_acked (serial m)"
    "\<not> stats_fired m" "\<not> ipaddr_fired m"
  shows "rexmit_round sg m = Some (m\<lparr>rexmit_fired := False\<rparr>, rethos_rexmit_data_frame (serial m))"
proof -
  have w: "rexmit_timer_wait REXMIT_TIMEOUT m = m\<lparr>rexmit_fired := True\<rparr>"
    using assms(1) timer_elapse_periodic
    by (simp add: rexmit_timer_wait_def Let_def)
  have t: "timers_section (m\<lparr>rexmit_fired := True\<rparr>) =
      (m\<lparr>rexmit_fired := False\<rparr>, rethos_rexmit_data_frame (serial m))"
    using assms(2,3,4) by (simp add: timers_section_def)
  show ?thesis
    by (simp add: rexmit_round_def w main_iteration_def t interrupted_wakeup_def no_wakeup_def)
qed

lemma rexmit_rounds_unacked:
  assumes "rexmit_timer m = rexmit_timer_spec" "\<not> rexmit_acked (serial m)"
    "\<not> stats_fired m" "\<not> ipaddr_fired m"
  shows "rexmit_rounds sg k m =
     Some (if k = 0 then m else m\<lparr>rexmit_fired := False\<rparr>,
           concat (replicate k (rethos_rexmit_data_frame (serial m))))"
  using assms
proof (induction k arbitrary: m)
  case 0
  then show ?case by simp
next
  case (Suc k)
  note r = rexmit_round_unacked [OF Suc.prems]
  have "rexmit_rounds sg k (m\<lparr>rexmit_fired := False\<rparr>) =
     Some (if k = 0 then m\<lparr>rexmit_fired := False\<rparr> else m\<lparr>rexmit_fired := False\<rparr>\<lparr>rexmit_fired := False\<rparr>,
           concat (replicate k (rethos_rexmit_data_frame (serial (m\<lparr>rexmit_fired := False\<rparr>)))))"
    using Suc.prems by (intro Suc.IH) simp_all
  then show ?case using r by simp
qed

subsection \<open>Payload sizes through a pass of the loop\<close>









lemma tx_inv_stats [simp]: "tx_inv (m\<lparr>stats := x\<rparr>) = tx_inv m"
  by (simp add: tx_inv_def)

lemma step_ok_stats [simp]: "step_ok m (m'\<lparr>stats := x\<rparr>) e = step_ok m m' e"
  by (simp add: step_ok_def)

lemma step_ok_stats' [simp]: "step_ok (m\<lparr>stats := x\<rparr>) m' e = step_ok m m' e"
  by (simp add: step_ok_def)









lemma tx_inv_other [simp]:
  "tx_inv (m\<lparr>inbuf := b\<rparr>) = tx_inv m"
  "tx_inv (m\<lparr>client_socket := cs\<rparr>) = tx_inv m"
  "tx_inv (m\<lparr>have_stdin := h\<rparr>) = tx_inv m"
  "tx_inv (m\<lparr>stats_fired := f\<rparr>) = tx_inv m"
  "tx_inv (m\<lparr>rexmit_fired := f\<rparr>) = tx_inv m"
  "tx_inv (m\<lparr>ipaddr_fired := f\<rparr>) = tx_inv m"
  by (simp_all add: tx_inv_def)

lemma step_ok_other [simp]:
  "step_ok (m\<lparr>inbuf := b\<rparr>) m' e = step_ok m m' e"
  "step_ok (m\<lparr>ipaddr_fired := f\<rparr>) m' e = step_ok m m' e"
  "step_ok m (m'\<lparr>client_socket := cs\<rparr>) e = step_ok m m' e"
  "step_ok m (m'\<lparr>have_stdin := h\<rparr>) e = step_ok m m' e"
  "step_ok m (m'\<lparr>stats_fired := f\<rparr>) e = step_ok m m' e"
  "step_ok m (m'\<lparr>rexmit_fired := f\<rparr>) e = step_ok m m' e"
  "step_ok m (m'\<lparr>inbuf := b\<rparr>) e = step_ok m m' e"
  by (simp_all add: step_ok_def)












section \<open>The receiver on a platform with signed \<open>char\<close>\<close>

lemma serial_handle_byte_signed:
  "\<not> in_escape s \<Longrightarrow> serial_handle_byte Char_signed s c = serial_switch s c"
  by (simp add: serial_handle_byte_def)

lemma feed_signed_quiet:
  "state s = WAIT_FRAMESTART \<Longrightarrow> \<not> in_escape s \<Longrightarrow>
   fst (feed Char_signed s bs) = replicate (length bs) NO_EVENT \<and>
   state (snd (feed Char_signed s bs)) = WAIT_FRAMESTART \<and>
   \<not> in_escape (snd (feed Char_signed s bs)) \<and>
   numbytes (snd (feed Char_signed s bs)) = numbytes s \<and>
   frame (snd (feed Char_signed s bs)) = frame s"
proof (induction bs arbitrary: s)
  case Nil
  then show ?case by simp
next
  case (Cons c cs)
  define s' where "s' = snd (serial_switch s c)"
  have e: "fst (serial_switch s c) = NO_EVENT" and a: "state s' = WAIT_FRAMESTART"
    and b: "\<not> in_escape s'" and n: "numbytes s' = numbytes s" "frame s' = frame s"
    using Cons.prems
    by (simp_all add: s'_def serial_switch_def update_checksum_def done_char_def split_def
        Let_def)
  have f: "feed Char_signed s (c # cs) =
      (NO_EVENT # fst (feed Char_signed s' cs), snd (feed Char_signed s' cs))"
    using Cons.prems e by (simp add: serial_handle_byte_signed split_def s'_def Let_def)
  show ?case
    unfolding f using Cons.IH [OF a b] n by simp
qed

lemma write_escaped_signed: "write_escaped Char_signed buf = buf"
  by (induction buf) (simp_all add: write_escaped_def)

lemma init_quiet: "state serial_init = WAIT_FRAMESTART" "\<not> in_escape serial_init"
  by (simp_all add: serial_init_def)

lemma signed_wire_escape:
  "send_frame Char_signed [0x01, 0xBE, 0x02] 4 7 RETHOS_FRAME_TYPE_DATA =
     [0xBE, 0xEF, 0x01, 0x07, 0x00, 0x04, 0x01, 0xBE, 0x02, 0xBE, 0xE5, 0xCD, 0xC3]"
  by code_simp

lemma unsigned_wire_escape:
  "send_frame Char_unsigned [0x01, 0xBE, 0x02] 4 7 RETHOS_FRAME_TYPE_DATA =
     [0xBE, 0xEF, 0x01, 0x07, 0x00, 0x04, 0x01, 0xBE, 0x55, 0x02, 0xBE, 0xE5, 0xCD, 0xC3]"
  by code_simp

lemma plain_wire:
  "send_frame sg [0x41] 4 7 RETHOS_FRAME_TYPE_DATA =
     [0xBE, 0xEF, 0x01, 0x07, 0x00, 0x04, 0x41, 0xBE, 0xE5, 0x4D, 0x6A]"
proof -
  have "send_frame Char_signed [0x41] 4 7 RETHOS_FRAME_TYPE_DATA =
     [0xBE, 0xEF, 0x01, 0x07, 0x00, 0x04, 0x41, 0xBE, 0xE5, 0x4D, 0x6A]"
    by code_simp
  moreover have "send_frame Char_unsigned [0x41] 4 7 RETHOS_FRAME_TYPE_DATA =
     [0xBE, 0xEF, 0x01, 0x07, 0x00, 0x04, 0x41, 0xBE, 0xE5, 0x4D, 0x6A]"
    by code_simp
  ultimately show ?thesis by (cases sg) simp_all
qed

section \<open>The codec on a platform with unsigned \<open>char\<close>\<close>

text \<open>With an unsigned \<open>char\<close> the bytes that \<open>_send_frame\<close> writes are decoded to the
  frame that was sent, from any state in which the receiver waits for a frame start, and
  also after bytes that did not make it report a frame.\<close>

lemma round_trip_unsigned_char:
  assumes "length payload \<le> MTU" and "state s = WAIT_FRAMESTART"
  shows "let (evs, s') = feed Char_unsigned s (send_frame Char_unsigned payload chan seqno frame_type)
         in filter (\<lambda>e. e \<noteq> NO_EVENT) evs = [FRAME_READY] \<and> last evs = FRAME_READY \<and>
            frametype s' = frame_type \<and> in_seqno s' = seqno \<and> channel s' = chan \<and>
            numbytes s' = length payload \<and> load_buf (frame s') (numbytes s') = payload"
  using feed_send_frame [OF assms(1), of s chan seqno frame_type]
  by (simp add: split_def rx_holds_def loud_def)

lemma resynchronization_unsigned_char:
  assumes "length payload \<le> MTU" and "state s = WAIT_FRAMESTART"
    and "FRAME_READY \<notin> set (fst (feed Char_unsigned s garbage))"
  shows "let (evs, s') = feed Char_unsigned s (garbage @ send_frame Char_unsigned payload chan seqno frame_type)
         in filter (\<lambda>e. e = FRAME_READY) evs = [FRAME_READY] \<and> last evs = FRAME_READY \<and>
            frametype s' = frame_type \<and> in_seqno s' = seqno \<and> channel s' = chan \<and>
            numbytes s' = length payload \<and> load_buf (frame s') (numbytes s') = payload"
proof -
  define s1 where "s1 = snd (feed Char_unsigned s garbage)"
  note f = feed_send_frame [OF assms(1), of s1 chan seqno frame_type]
  have g: "filter (\<lambda>e. e = FRAME_READY) (fst (feed Char_unsigned s garbage)) = []"
    using assms(3) by (auto simp add: filter_empty_conv)
  have ne: "fst (feed Char_unsigned s1 (send_frame Char_unsigned payload chan seqno frame_type)) \<noteq> []"
    using f(1) by (auto simp add: loud_def)
  have d: "feed Char_unsigned s (garbage @ send_frame Char_unsigned payload chan seqno frame_type) =
      (fst (feed Char_unsigned s garbage) @ fst (feed Char_unsigned s1 (send_frame Char_unsigned payload chan seqno frame_type)),
       snd (feed Char_unsigned s1 (send_frame Char_unsigned payload chan seqno frame_type)))"
    by (simp only: feed_append s1_def)
  show ?thesis
    using f(2,3) g ne loud_ready [OF f(1)] by (simp add: d rx_holds_def)
qed

section \<open>What a call of \<open>rethos_send_data_frame\<close> leaves\<close>

lemma send_data_frame_fresh:
  "snd (rethos_send_data_frame m data chan) =
     [Send_frame data chan (out_seqno (serial m) + 1) RETHOS_FRAME_TYPE_DATA] \<and>
   out_seqno (serial (fst (rethos_send_data_frame m data chan))) = out_seqno (serial m) + 1 \<and>
   \<not> rexmit_acked (serial (fst (rethos_send_data_frame m data chan))) \<and>
   rethos_rexmit_data_frame (serial (fst (rethos_send_data_frame m data chan))) =
     [Send_frame data chan (out_seqno (serial m) + 1) RETHOS_FRAME_TYPE_DATA] \<and>
   rexmit_timer (fst (rethos_send_data_frame m data chan)) = rexmit_timer_spec"
  by (simp add: send_data_frame_eq rethos_rexmit_data_frame_def load_store_buf)

section \<open>The claims\<close>

text \<open>
  C4 (codec round trip), evaluated where the code departs from the claim: a platform
  with signed \<open>char\<close> (gcc on x86-64 Linux). There a \<open>char\<close> that holds the byte 0xBE has
  the value -66, so the tests \<open>c == 0xBE\<close>, \<open>c == 0xEF\<close> and \<open>c == 0xE5\<close> never hold. The
  frame with the payload 01 BE 02, sequence number 7 and channel 4 is written with the
  payload byte 0xBE as it is, without the escape (\<open>_write_escaped\<close> writes every buffer
  as it is). The receive state machine, fed the bytes that were written, takes each of
  them for a stray byte: it reports no \<open>FRAME_READY\<close>, stays in \<open>WAIT_FRAMESTART\<close> and
  stores no payload. It does the same with the bytes of this frame as a platform with
  unsigned \<open>char\<close> writes them, the byte 0xBE escaped.
\<close>

theorem codec_signed_char:
  "send_frame Char_signed [0x01, 0xBE, 0x02] 4 7 RETHOS_FRAME_TYPE_DATA =
     [0xBE, 0xEF, 0x01, 0x07, 0x00, 0x04, 0x01, 0xBE, 0x02, 0xBE, 0xE5, 0xCD, 0xC3] \<and>
   fst (feed Char_signed serial_init
     [0xBE, 0xEF, 0x01, 0x07, 0x00, 0x04, 0x01, 0xBE, 0x02, 0xBE, 0xE5, 0xCD, 0xC3]) =
     [NO_EVENT, NO_EVENT, NO_EVENT, NO_EVENT, NO_EVENT, NO_EVENT, NO_EVENT, NO_EVENT,
      NO_EVENT, NO_EVENT, NO_EVENT, NO_EVENT, NO_EVENT] \<and>
   state (snd (feed Char_signed serial_init
     [0xBE, 0xEF, 0x01, 0x07, 0x00, 0x04, 0x01, 0xBE, 0x02, 0xBE, 0xE5, 0xCD, 0xC3])) =
     WAIT_FRAMESTART \<and>
   numbytes (snd (feed Char_signed serial_init
     [0xBE, 0xEF, 0x01, 0x07, 0x00, 0x04, 0x01, 0xBE, 0x02, 0xBE, 0xE5, 0xCD, 0xC3])) = 0 \<and>
   write_escaped Char_signed buf = buf \<and>
   send_frame Char_unsigned [0x01, 0xBE, 0x02] 4 7 RETHOS_FRAME_TYPE_DATA =
     [0xBE, 0xEF, 0x01, 0x07, 0x00, 0x04, 0x01, 0xBE, 0x55, 0x02, 0xBE, 0xE5, 0xCD, 0xC3] \<and>
   fst (feed Char_signed serial_init
     [0xBE, 0xEF, 0x01, 0x07, 0x00, 0x04, 0x01, 0xBE, 0x55, 0x02, 0xBE, 0xE5, 0xCD, 0xC3]) =
     [NO_EVENT, NO_EVENT, NO_EVENT, NO_EVENT, NO_EVENT, NO_EVENT, NO_EVENT, NO_EVENT,
      NO_EVENT, NO_EVENT, NO_EVENT, NO_EVENT, NO_EVENT, NO_EVENT]"
proof -
  note q = feed_signed_quiet [OF init_quiet]
  have z: "numbytes serial_init = 0" by (simp add: serial_init_def)
  show ?thesis
    using q [of "[0xBE, 0xEF, 0x01, 0x07, 0x00, 0x04, 0x01, 0xBE, 0x02, 0xBE, 0xE5, 0xCD, 0xC3]"]
      q [of "[0xBE, 0xEF, 0x01, 0x07, 0x00, 0x04, 0x01, 0xBE, 0x55, 0x02, 0xBE, 0xE5, 0xCD, 0xC3]"]
      z
    by (simp add: signed_wire_escape unsigned_wire_escape write_escaped_signed numeral_eq_Suc)
qed

text \<open>
  C8 (resynchronisation), evaluated where the code departs from the claim: a platform
  with signed \<open>char\<close> (gcc on x86-64 Linux). The bytes 00 BE EF 01 BE followed by the
  bytes of a well-formed frame (payload 41, sequence number 7, channel 4; it has the
  same bytes whatever the platform that writes it) give no \<open>FRAME_READY\<close>. Indeed no bytes at all, \<open>garbage\<close> followed by any \<open>frame_bytes\<close>, make
  the receiver report a frame: it takes every byte for a stray byte and stays in
  \<open>WAIT_FRAMESTART\<close>. The cause is the one of C4, the comparison of a signed \<open>char\<close>
  with 0xBE.
\<close>

theorem resynchronization_signed_char:
  "send_frame sg [0x41] 4 7 RETHOS_FRAME_TYPE_DATA =
     [0xBE, 0xEF, 0x01, 0x07, 0x00, 0x04, 0x41, 0xBE, 0xE5, 0x4D, 0x6A] \<and>
   fst (feed Char_signed serial_init
     ([0x00, 0xBE, 0xEF, 0x01, 0xBE]
      @ [0xBE, 0xEF, 0x01, 0x07, 0x00, 0x04, 0x41, 0xBE, 0xE5, 0x4D, 0x6A])) =
     [NO_EVENT, NO_EVENT, NO_EVENT, NO_EVENT, NO_EVENT, NO_EVENT, NO_EVENT, NO_EVENT,
      NO_EVENT, NO_EVENT, NO_EVENT, NO_EVENT, NO_EVENT, NO_EVENT, NO_EVENT, NO_EVENT] \<and>
   fst (feed Char_signed serial_init (garbage @ frame_bytes)) =
     replicate (length garbage + length frame_bytes) NO_EVENT \<and>
   state (snd (feed Char_signed serial_init (garbage @ frame_bytes))) = WAIT_FRAMESTART"
proof -
  note q = feed_signed_quiet [OF init_quiet]
  show ?thesis
    using q [of "[0x00, 0xBE, 0xEF, 0x01, 0xBE]
      @ [0xBE, 0xEF, 0x01, 0x07, 0x00, 0x04, 0x41, 0xBE, 0xE5, 0x4D, 0x6A]"]
      q [of "garbage @ frame_bytes"]
    by (simp add: plain_wire numeral_eq_Suc del: append.simps)
qed

text \<open>
  C5 (NACK handling). When a \<open>NACK\<close> frame has been received on channel 0: if the
  retransmit slot is unacked, the stored frame is sent again as it is (same sequence
  number, channel and payload); if the slot is acked and a \<open>DATA\<close> frame has been
  received before, an \<open>ACK\<close> of the last received sequence number is sent; if the slot
  is acked and no \<open>DATA\<close> frame has been received, nothing is sent. The link state,
  with the outbound counter, and the retransmission timer stay as they are, and no
  frame of type \<open>NACK\<close> is sent.
\<close>

theorem nack_handling:
  assumes "channel (serial m) = RESERVED_CHANNEL"
    and "frametype (serial m) = RETHOS_FRAME_TYPE_NACK"
  shows "let s = serial m; (m', effs, serial_done) = handle_frame_ready m
         in effs =
              (if \<not> rexmit_acked s then
                 [Send_frame (load_buf (rexmit_frame s) (rexmit_numbytes s)) (rexmit_channel s)
                    (rexmit_seqno s) RETHOS_FRAME_TYPE_DATA]
               else if received_data_frame s then
                 [Send_frame [] RESERVED_CHANNEL (last_rcvd_seqno s) RETHOS_FRAME_TYPE_ACK]
               else []) \<and>
            serial m' = s \<and> rexmit_timer m' = rexmit_timer m \<and>
            Some RETHOS_FRAME_TYPE_NACK \<notin> set (map frame_type_of effs)"
  using assms num_channels [of "channel (serial m)"]
  by (simp add: handle_frame_ready_def handle_control_frame_def link_sends Let_def frame_types)

theorem nack_handling_witness:
  "channel (serial nack_example) = RESERVED_CHANNEL \<and>
   frametype (serial nack_example) = RETHOS_FRAME_TYPE_NACK \<and>
   \<not> rexmit_acked (serial nack_example) \<and>
   (let (m', effs, serial_done) = handle_frame_ready nack_example
    in effs = [Send_frame [0x41] 4 1 RETHOS_FRAME_TYPE_DATA] \<and>
       out_seqno (serial m') = 1 \<and> out_seqno (serial nack_example) = 1)"
proof -
  have a: "channel (serial nack_example) = RESERVED_CHANNEL"
    and b: "frametype (serial nack_example) = RETHOS_FRAME_TYPE_NACK"
    by (simp_all add: nack_example_def unacked_example_def example_defs)
  have c: "\<not> rexmit_acked (serial nack_example)"
    and d: "load_buf (rexmit_frame (serial nack_example)) (rexmit_numbytes (serial nack_example)) = [0x41]"
    and e: "rexmit_channel (serial nack_example) = 4" "rexmit_seqno (serial nack_example) = 1"
       "out_seqno (serial nack_example) = 1"
    by (simp_all add: nack_example_def unacked_example_def example_defs)
  show ?thesis
    using a b c d e nack_handling [OF a b] by (auto simp add: Let_def split_def)
qed

text \<open>
  C6 (acknowledgement and duplicates), refuted as stated: the same frame handled twice
  in a row does not always give exactly one delivery. On channel 4 with no client
  connected, the two receptions give two \<open>ACK\<close>s and no delivery at all. On channel 1
  with a client connected there, the first reception alone hands the payload on twice,
  to standard output and to the client.
\<close>

theorem duplicate_without_delivery:
  "channel (serial no_client_example) = 4 \<and> in_seqno (serial no_client_example) = 7 \<and>
   \<not> received_data_frame (serial no_client_example) \<and> \<not> client_socket no_client_example 4 \<and>
   fst (snd (handle_frame_ready no_client_example)) =
     [Send_frame [] RESERVED_CHANNEL 7 RETHOS_FRAME_TYPE_ACK] \<and>
   fst (snd (handle_frame_ready (fst (handle_frame_ready no_client_example)))) =
     [Send_frame [] RESERVED_CHANNEL 7 RETHOS_FRAME_TYPE_ACK] \<and>
   channel (serial stdin_client_example) = STDIN_CHANNEL \<and> client_socket stdin_client_example 1 \<and>
   fst (snd (handle_frame_ready stdin_client_example)) =
     [Send_frame [] RESERVED_CHANNEL 7 RETHOS_FRAME_TYPE_ACK, Write_stdout [0x41],
      Write_message STDIN_CHANNEL [0x41]] \<and>
   fst (snd (handle_frame_ready (fst (handle_frame_ready stdin_client_example)))) =
     [Send_frame [] RESERVED_CHANNEL 7 RETHOS_FRAME_TYPE_ACK]"
proof -
  have a: "channel (serial no_client_example) \<noteq> RESERVED_CHANNEL"
    and b: "\<not> (received_data_frame (serial no_client_example) \<and>
              in_seqno (serial no_client_example) = last_rcvd_seqno (serial no_client_example))"
    and d: "channel (serial no_client_example) = 4" "in_seqno (serial no_client_example) = 7"
      "numbytes (serial no_client_example) = 1" "\<not> client_socket no_client_example 4"
      "\<not> received_data_frame (serial no_client_example)"
    by (simp_all add: no_client_example_def example_defs)
  have a': "channel (serial stdin_client_example) \<noteq> RESERVED_CHANNEL"
    and b': "\<not> (received_data_frame (serial stdin_client_example) \<and>
              in_seqno (serial stdin_client_example) =
                last_rcvd_seqno (serial stdin_client_example))"
    and d': "channel (serial stdin_client_example) = STDIN_CHANNEL"
      "in_seqno (serial stdin_client_example) = 7"
      "numbytes (serial stdin_client_example) = 1" "client_socket stdin_client_example 1"
      "load_buf (frame (serial stdin_client_example)) (Suc 0) = [0x41]"
    by (simp_all add: stdin_client_example_def example_defs)
  note n = handle_data_new [OF a b]
  note n' = handle_data_new [OF a' b']
  have e1: "fst (snd (handle_frame_ready no_client_example)) =
     [Send_frame [] RESERVED_CHANNEL 7 RETHOS_FRAME_TYPE_ACK]"
    using n d by (simp add: Let_def deliver_frame_def channels)
  have e1': "fst (snd (handle_frame_ready stdin_client_example)) =
     [Send_frame [] RESERVED_CHANNEL 7 RETHOS_FRAME_TYPE_ACK, Write_stdout [0x41],
      Write_message STDIN_CHANNEL [0x41]]"
    using n' d' by (simp add: Let_def deliver_frame_def channels)
  note after = handle_data_after [OF a]
  note after' = handle_data_after [OF a']
  have c2: "channel (serial (fst (handle_frame_ready no_client_example))) \<noteq> RESERVED_CHANNEL"
    using after a by simp
  have c2': "channel (serial (fst (handle_frame_ready stdin_client_example))) \<noteq> RESERVED_CHANNEL"
    using after' a' by simp
  have e2: "fst (snd (handle_frame_ready (fst (handle_frame_ready no_client_example)))) =
     [Send_frame [] RESERVED_CHANNEL 7 RETHOS_FRAME_TYPE_ACK]"
    using handle_data_duplicate [OF c2] after d by simp
  have e2': "fst (snd (handle_frame_ready (fst (handle_frame_ready stdin_client_example)))) =
     [Send_frame [] RESERVED_CHANNEL 7 RETHOS_FRAME_TYPE_ACK]"
    using handle_data_duplicate [OF c2'] after' d' by simp
  show ?thesis using d d' e1 e1' e2 e2' by simp
qed

text \<open>
  C6, as the code has it. When a frame has been received on a channel
  other than 0, the first thing sent is an \<open>ACK\<close> with its sequence number. If a
  \<open>DATA\<close> frame has been received before and the sequence number equals the last
  received one, nothing else happens: the payload is not handed on. Handling the same
  frame a second time right after the first is always such a duplicate, so the two
  receptions give two \<open>ACK\<close>s with the same sequence number and no delivery beyond
  those of the first; when the first reception is of a new, non-empty frame on a
  general-purpose channel with a connected client, that is exactly one delivery.
\<close>

theorem duplicate_suppression:
  assumes "channel (serial m) \<noteq> RESERVED_CHANNEL"
  shows "let s = serial m;
             ack = Send_frame [] RESERVED_CHANNEL (in_seqno s) RETHOS_FRAME_TYPE_ACK;
             (m1, e1, d1) = handle_frame_ready m;
             (m2, e2, d2) = handle_frame_ready m1
         in take 1 e1 = [ack] \<and>
            (received_data_frame s \<and> in_seqno s = last_rcvd_seqno s \<longrightarrow> e1 = [ack]) \<and>
            in_seqno (serial m1) = in_seqno s \<and> channel (serial m1) = channel s \<and>
            numbytes (serial m1) = numbytes s \<and> frame (serial m1) = frame s \<and>
            e2 = [ack] \<and>
            filter is_delivery (e1 @ e2) = filter is_delivery e1 \<and>
            concat (map acked_seqno (e1 @ e2)) = [in_seqno s, in_seqno s] \<and>
            (\<not> (received_data_frame s \<and> in_seqno s = last_rcvd_seqno s) \<and> numbytes s \<noteq> 0 \<and>
             channel s \<noteq> STDIN_CHANNEL \<and> channel s \<noteq> CMD_CHANNEL \<and>
             channel s \<noteq> TUNTAP_CHANNEL \<and> client_socket m (unat (channel s)) \<longrightarrow>
             e1 = [ack, Write_message (channel s) (load_buf (frame s) (numbytes s))])"
proof -
  define s where "s = serial m"
  define ack where "ack = Send_frame [] RESERVED_CHANNEL (in_seqno s) RETHOS_FRAME_TYPE_ACK"
  define m1 where "m1 = fst (handle_frame_ready m)"
  define e1 where "e1 = fst (snd (handle_frame_ready m))"
  define e2 where "e2 = fst (snd (handle_frame_ready m1))"
  note after = handle_data_after [OF assms, folded m1_def s_def]
  have c1: "channel (serial m1) \<noteq> RESERVED_CHANNEL" using after assms by (simp add: s_def)
  have dup: "received_data_frame (serial m1)" "in_seqno (serial m1) = last_rcvd_seqno (serial m1)"
    using after by simp_all
  have E2: "e2 = [ack]"
    using handle_data_duplicate [OF c1 dup] after by (simp add: e2_def ack_def)
  have E1: "take 1 e1 = [ack] \<and> concat (map acked_seqno e1) = [in_seqno s] \<and>
     (received_data_frame s \<and> in_seqno s = last_rcvd_seqno s \<longrightarrow> e1 = [ack]) \<and>
     (\<not> (received_data_frame s \<and> in_seqno s = last_rcvd_seqno s) \<and> numbytes s \<noteq> 0 \<and>
       channel s \<noteq> STDIN_CHANNEL \<and> channel s \<noteq> CMD_CHANNEL \<and>
       channel s \<noteq> TUNTAP_CHANNEL \<and> client_socket m (unat (channel s)) \<longrightarrow>
       e1 = [ack, Write_message (channel s) (load_buf (frame s) (numbytes s))])"
  proof (cases "received_data_frame s \<and> in_seqno s = last_rcvd_seqno s")
    case True
    then have "e1 = [ack]"
      using handle_data_duplicate [OF assms] by (simp add: e1_def ack_def s_def)
    then show ?thesis using True by (simp add: ack_def)
  next
    case False
    note n = handle_data_new [OF assms False [unfolded s_def]]
    show ?thesis
    proof (cases "numbytes s = 0")
      case True
      then have "e1 = [ack]" using n by (simp add: e1_def ack_def s_def Let_def)
      then show ?thesis using True False by (simp add: ack_def)
    next
      case nz: False
      define ma where "ma = m\<lparr>serial := s\<lparr>received_data_frame := True, last_rcvd_seqno := in_seqno s\<rparr>,
                 stats := (stats m)\<lparr>serial_received := serial_received (stats m) + 1,
                   lost_frames := lost_frames (stats m)
                     + word_of_int (uint (in_seqno s) - uint (last_rcvd_seqno s) - 1)\<rparr>\<rparr>"
      have e: "e1 = ack # snd (deliver_frame ma)"
        using n nz by (simp add: e1_def ack_def s_def Let_def ma_def)
      have a: "concat (map acked_seqno e1) = [in_seqno s]"
        using deliver_frame_acks [of ma] by (simp add: e ack_def)
      have d: "channel s \<noteq> STDIN_CHANNEL \<and> channel s \<noteq> CMD_CHANNEL \<and>
          channel s \<noteq> TUNTAP_CHANNEL \<and> client_socket m (unat (channel s)) \<longrightarrow>
          snd (deliver_frame ma) = [Write_message (channel s) (load_buf (frame s) (numbytes s))]"
        by (simp add: deliver_frame_def ma_def Let_def)
      show ?thesis using e a d False by auto
    qed
  qed
  have F: "filter is_delivery (e1 @ e2) = filter is_delivery e1"
    by (simp add: E2 ack_def)
  have A: "concat (map acked_seqno (e1 @ e2)) = [in_seqno s, in_seqno s]"
    using E1 by (simp add: E2 ack_def)
  show ?thesis
    using E1 E2 F A after
    unfolding Let_def split_def s_def [symmetric] m1_def [symmetric] e1_def [symmetric]
      e2_def [symmetric] ack_def [symmetric]
    by simp
qed

theorem duplicate_suppression_witness:
  "channel (serial new_frame_example) \<noteq> RESERVED_CHANNEL \<and>
   \<not> received_data_frame (serial new_frame_example) \<and>
   client_socket new_frame_example (unat (channel (serial new_frame_example))) \<and>
   (let (m1, e1, d1) = handle_frame_ready new_frame_example;
        (m2, e2, d2) = handle_frame_ready m1
    in e1 = [Send_frame [] RESERVED_CHANNEL 7 RETHOS_FRAME_TYPE_ACK, Write_message 4 [0x41]] \<and>
       e2 = [Send_frame [] RESERVED_CHANNEL 7 RETHOS_FRAME_TYPE_ACK]) \<and>
   channel (serial duplicate_example) \<noteq> RESERVED_CHANNEL \<and>
   received_data_frame (serial duplicate_example) \<and>
   in_seqno (serial duplicate_example) = last_rcvd_seqno (serial duplicate_example) \<and>
   fst (snd (handle_frame_ready duplicate_example)) =
     [Send_frame [] RESERVED_CHANNEL 7 RETHOS_FRAME_TYPE_ACK]"
proof -
  have a: "channel (serial new_frame_example) \<noteq> RESERVED_CHANNEL"
    and b: "\<not> received_data_frame (serial new_frame_example)"
    and c: "client_socket new_frame_example (unat (channel (serial new_frame_example)))"
    and d: "channel (serial new_frame_example) = 4" "in_seqno (serial new_frame_example) = 7"
      "numbytes (serial new_frame_example) = 1"
      "load_buf (frame (serial new_frame_example)) (numbytes (serial new_frame_example)) = [0x41]"
    by (simp_all add: new_frame_example_def example_defs)
  note after = handle_data_after [OF a, folded duplicate_example_def]
  have a': "channel (serial duplicate_example) \<noteq> RESERVED_CHANNEL"
    using after a by simp
  have first: "let (m1, e1, d1) = handle_frame_ready new_frame_example;
        (m2, e2, d2) = handle_frame_ready m1
    in e1 = [Send_frame [] RESERVED_CHANNEL 7 RETHOS_FRAME_TYPE_ACK, Write_message 4 [0x41]] \<and>
       e2 = [Send_frame [] RESERVED_CHANNEL 7 RETHOS_FRAME_TYPE_ACK]"
    using a b c d duplicate_suppression [OF a]
    by (auto simp add: Let_def split_def channels)
  have second: "fst (snd (handle_frame_ready duplicate_example)) =
     [Send_frame [] RESERVED_CHANNEL 7 RETHOS_FRAME_TYPE_ACK]"
    using after d duplicate_suppression [OF a']
    by (auto simp add: Let_def split_def)
  show ?thesis using a b c a' after first second by simp
qed

text \<open>
  C2 (loss accounting), evaluated where the code departs from the claim, on a platform
  with unsigned \<open>char\<close> (where frames are received): the last received sequence number
  is 65535 and the bytes of a \<open>DATA\<close> frame with sequence number 0 on channel 4 are
  read from the serial line. No frame was lost, yet
  \<open>lost_frames\<close> goes from 0 to \<open>2\<^sup>6\<^sup>4 - 65536\<close>: the difference \<open>0 - 65535 - 1\<close> is
  computed in \<open>int\<close> and added as such.
\<close>

theorem lost_frames_wraparound:
  "received_data_frame (serial wrap_start) \<and> last_rcvd_seqno (serial wrap_start) = 65535 \<and>
   lost_frames (stats wrap_start) = 0 \<and>
   send_frame Char_unsigned [0x41] 4 0 RETHOS_FRAME_TYPE_DATA =
     [0xBE, 0xEF, 0x01, 0x00, 0x00, 0x04, 0x41, 0xBE, 0xE5, 0x46, 0x4E] \<and>
   lost_frames (stats (fst (serial_loop Char_unsigned wrap_start
     [0xBE, 0xEF, 0x01, 0x00, 0x00, 0x04, 0x41, 0xBE, 0xE5, 0x46, 0x4E]))) = 0xFFFFFFFFFFFF0000 \<and>
   fst (snd (serial_loop Char_unsigned wrap_start
     [0xBE, 0xEF, 0x01, 0x00, 0x00, 0x04, 0x41, 0xBE, 0xE5, 0x46, 0x4E])) =
     [Send_frame [] RESERVED_CHANNEL 0 RETHOS_FRAME_TYPE_ACK]"
proof -
  define w where "w = send_frame Char_unsigned [0x41] 4 0 RETHOS_FRAME_TYPE_DATA"
  define m1 where "m1 = wrap_start\<lparr>serial := snd (feed Char_unsigned (serial wrap_start) w)\<rparr>"
  have l: "length [0x41 :: u8] \<le> MTU" by (simp add: MTU_def)
  note f = frame_arrival [OF l, of "serial wrap_start" 4 0 RETHOS_FRAME_TYPE_DATA, folded w_def]
  have s0: "received_data_frame (serial wrap_start)" "last_rcvd_seqno (serial wrap_start) = 65535"
    "lost_frames (stats wrap_start) = 0" "\<not> client_socket wrap_start 4"
    by (simp_all add: wrap_start_def main_init_def serial_init_def stats_init_def)
  have s1: "channel (serial m1) = 4" "in_seqno (serial m1) = 0" "numbytes (serial m1) = 1"
    "received_data_frame (serial m1)" "last_rcvd_seqno (serial m1) = 65535"
    "lost_frames (stats m1) = 0" "\<not> client_socket m1 4"
    using f s0 by (simp_all add: m1_def link_state_def)
  have a: "channel (serial m1) \<noteq> RESERVED_CHANNEL" using s1 by (simp add: channels)
  have b: "\<not> (received_data_frame (serial m1) \<and> in_seqno (serial m1) = last_rcvd_seqno (serial m1))"
    using s1 by simp
  have d: "(word_of_int (uint (0 :: u16) - uint (65535 :: u16) - 1) :: u64) = 0xFFFFFFFFFFFF0000"
    by simp
  have h: "lost_frames (stats (fst (handle_frame_ready m1))) = 0xFFFFFFFFFFFF0000"
    "fst (snd (handle_frame_ready m1)) = [Send_frame [] RESERVED_CHANNEL 0 RETHOS_FRAME_TYPE_ACK]"
    "\<not> snd (snd (handle_frame_ready m1))"
    using s1 d handle_data_new [OF a b]
    by (simp_all add: Let_def deliver_frame_lost) (simp add: deliver_frame_def channels)
  have "serial_loop Char_unsigned wrap_start (w @ []) =
      (fst (handle_frame_ready m1), fst (snd (handle_frame_ready m1)), [])"
    using serial_loop_frame [OF l, of wrap_start 4 0 RETHOS_FRAME_TYPE_DATA "[]"] h(3)
    by (simp add: Let_def split_def m1_def w_def)
  then show ?thesis using h s0 by (simp add: w_def [symmetric]) (simp add: w_def wrap_wire)
qed

text \<open>
  C9 (command channel), evaluated where the code departs from the claim, on a platform
  with unsigned \<open>char\<close> (where frames are received): the bytes of a \<open>DATA\<close> frame with
  the request 0x01 on channel 2 are read from the serial line, and the response frame
  lies in memory with three bytes of padding. After the
  \<open>ACK\<close>, the \<open>DATA\<close> frame sent on channel 2 carries the whole object: 0x11, the
  three padding bytes, then the sixteen address bytes, twenty bytes in all.
\<close>

theorem command_reply_padded:
  "padding (mcu_addr_rsp_frame (main_init rsp_example False)) = [0, 0, 0] \<and>
   send_frame Char_unsigned [CMD_GET_MCU_IP_ADDR] CMD_CHANNEL 1 RETHOS_FRAME_TYPE_DATA =
     [0xBE, 0xEF, 0x01, 0x01, 0x00, 0x02, 0x01, 0xBE, 0xE5, 0x05, 0x0E] \<and>
   fst (snd (serial_loop Char_unsigned (main_init rsp_example False)
     [0xBE, 0xEF, 0x01, 0x01, 0x00, 0x02, 0x01, 0xBE, 0xE5, 0x05, 0x0E])) =
     [Send_frame [] RESERVED_CHANNEL 1 RETHOS_FRAME_TYPE_ACK,
      Send_frame [0x11, 0, 0, 0, 0x20, 0x01, 0x0d, 0xb8, 0, 0, 0, 0, 0, 0, 0, 0, 0, 0, 0, 0x02]
        CMD_CHANNEL 1 RETHOS_FRAME_TYPE_DATA]"
proof -
  define m0 where "m0 = main_init rsp_example False"
  define w where "w = send_frame Char_unsigned [CMD_GET_MCU_IP_ADDR] CMD_CHANNEL 1 RETHOS_FRAME_TYPE_DATA"
  define m1 where "m1 = m0\<lparr>serial := snd (feed Char_unsigned (serial m0) w)\<rparr>"
  have l: "length [CMD_GET_MCU_IP_ADDR] \<le> MTU" by (simp add: MTU_def)
  note f = frame_arrival [OF l, of "serial m0" CMD_CHANNEL 1 RETHOS_FRAME_TYPE_DATA, folded w_def]
  have s0: "\<not> received_data_frame (serial m0)" "out_seqno (serial m0) = 0"
    "\<not> client_socket m0 2" "mcu_addr_rsp_frame m0 = rsp_example"
    by (simp_all add: m0_def main_init_def serial_init_def rsp_example_def)
  have s1: "channel (serial m1) = CMD_CHANNEL" "in_seqno (serial m1) = 1" "numbytes (serial m1) = 1"
    "frame (serial m1) 0 = CMD_GET_MCU_IP_ADDR"
    "\<not> received_data_frame (serial m1)" "out_seqno (serial m1) = 0"
    "\<not> client_socket m1 2" "mcu_addr_rsp_frame m1 = rsp_example"
    using f s0 by (simp_all add: m1_def link_state_def load_buf_1)
  have a: "channel (serial m1) \<noteq> RESERVED_CHANNEL" using s1 by (simp add: channels)
  have b: "\<not> (received_data_frame (serial m1) \<and> in_seqno (serial m1) = last_rcvd_seqno (serial m1))"
    using s1 by simp
  have d: "rsp_frame_bytes rsp_example =
      [0x11, 0, 0, 0, 0x20, 0x01, 0x0d, 0xb8, 0, 0, 0, 0, 0, 0, 0, 0, 0, 0, 0, 0x02]"
    by (simp add: rsp_frame_bytes_def rsp_example_def RSP_GET_MCU_IP_ADDR_def)
  have h: "fst (snd (handle_frame_ready m1)) =
     [Send_frame [] RESERVED_CHANNEL 1 RETHOS_FRAME_TYPE_ACK,
      Send_frame (rsp_frame_bytes rsp_example) CMD_CHANNEL 1 RETHOS_FRAME_TYPE_DATA]"
    "\<not> snd (snd (handle_frame_ready m1))"
    using s1 handle_data_new [OF a b]
    by (simp_all add: Let_def deliver_frame_def rethos_send_data_frame_def channels)
  have "serial_loop Char_unsigned m0 (w @ []) =
      (fst (handle_frame_ready m1), fst (snd (handle_frame_ready m1)), [])"
    using serial_loop_frame [OF l, of m0 CMD_CHANNEL 1 RETHOS_FRAME_TYPE_DATA "[]"] h(2)
    by (simp add: Let_def split_def m1_def w_def)
  then have "fst (snd (serial_loop Char_unsigned m0 w)) =
     [Send_frame [] RESERVED_CHANNEL 1 RETHOS_FRAME_TYPE_ACK,
      Send_frame [0x11, 0, 0, 0, 0x20, 0x01, 0x0d, 0xb8, 0, 0, 0, 0, 0, 0, 0, 0, 0, 0, 0, 0x02]
        CMD_CHANNEL 1 RETHOS_FRAME_TYPE_DATA]"
    using h(1) by (simp add: d)
  moreover have "padding (mcu_addr_rsp_frame m0) = [0, 0, 0]"
    using s0 by (simp add: rsp_example_def)
  ultimately show ?thesis
    by (simp add: m0_def [symmetric] w_def [symmetric]) (simp add: w_def cmd_wire)
qed

text \<open>
  C3 (all bytes of a read are processed), evaluated where the code departs from the
  claim, on a platform with unsigned \<open>char\<close> (where frames are received): a read of the
  serial line that begins with an \<open>ACK\<close> frame. Whatever bytes
  \<open>rest\<close> follow the frame in the same read, the loop is left with them unprocessed,
  and nothing is sent for them.
\<close>

theorem serial_loop_drops_rest:
  "snd (snd (serial_loop Char_unsigned m
     (send_frame Char_unsigned [] RESERVED_CHANNEL seqno RETHOS_FRAME_TYPE_ACK @ rest))) = rest \<and>
   fst (snd (serial_loop Char_unsigned m
     (send_frame Char_unsigned [] RESERVED_CHANNEL seqno RETHOS_FRAME_TYPE_ACK @ rest))) = [] \<and>
   send_frame Char_unsigned [] RESERVED_CHANNEL 0 RETHOS_FRAME_TYPE_ACK =
     [0xBE, 0xEF, 0x04, 0x00, 0x00, 0x00, 0xBE, 0xE5, 0x04, 0x10]"
proof -
  define w where "w = send_frame Char_unsigned [] RESERVED_CHANNEL seqno RETHOS_FRAME_TYPE_ACK"
  define m1 where "m1 = m\<lparr>serial := snd (feed Char_unsigned (serial m) w)\<rparr>"
  have l: "length ([] :: u8 list) \<le> MTU" by simp
  note f = feed_send_frame(3) [OF l, of "serial m" RESERVED_CHANNEL seqno RETHOS_FRAME_TYPE_ACK]
  have c: "channel (serial m1) = RESERVED_CHANNEL" and t: "frametype (serial m1) = RETHOS_FRAME_TYPE_ACK"
    using f by (simp_all add: m1_def w_def rx_holds_def)
  have "serial_loop Char_unsigned m (w @ rest) =
      (fst (handle_frame_ready m1), fst (snd (handle_frame_ready m1)), rest)"
    using serial_loop_frame [OF l, of m RESERVED_CHANNEL seqno RETHOS_FRAME_TYPE_ACK rest]
      handle_control_done [OF c]
    by (simp add: Let_def split_def m1_def w_def)
  then show ?thesis using handle_ack_quiet [OF c t] ack_wire by (simp add: w_def)
qed

text \<open>
  C1 (stop and wait), refuted as stated. In the first pass of the loop standard input
  delivers a byte, which is sent as the \<open>DATA\<close> frame with sequence number 1; the slot
  is then unacked. In the next pass, with no byte received from the serial line in
  between, standard input delivers another byte, and it is sent at once as the \<open>DATA\<close>
  frame with sequence number 2. This is so whether \<open>char\<close> is signed or unsigned.
\<close>

theorem send_while_unacked:
  "map_option snd (main_iteration Char_unsigned (main_init rsp_example False)
     (stdin_wakeup [0x41])) =
     Some [Send_frame [0x41] STDIN_CHANNEL 1 RETHOS_FRAME_TYPE_DATA] \<and>
   \<not> rexmit_acked (serial (first_send_example Char_unsigned)) \<and>
   map_option snd (main_iteration Char_unsigned (first_send_example Char_unsigned)
     (stdin_wakeup [0x42])) =
     Some [Send_frame [0x42] STDIN_CHANNEL 2 RETHOS_FRAME_TYPE_DATA] \<and>
   map_option snd (main_iteration Char_signed (main_init rsp_example False)
     (stdin_wakeup [0x41])) =
     Some [Send_frame [0x41] STDIN_CHANNEL 1 RETHOS_FRAME_TYPE_DATA] \<and>
   \<not> rexmit_acked (serial (first_send_example Char_signed)) \<and>
   map_option snd (main_iteration Char_signed (first_send_example Char_signed)
     (stdin_wakeup [0x42])) =
     Some [Send_frame [0x42] STDIN_CHANNEL 2 RETHOS_FRAME_TYPE_DATA]"
proof -
  define m0 where "m0 = main_init rsp_example False"
  have f0: "\<not> stats_fired m0" "\<not> rexmit_fired m0" "\<not> ipaddr_fired m0" "have_stdin m0"
    and o0: "out_seqno (serial m0) = 0"
    by (simp_all add: m0_def main_init_def serial_init_def)
  have l: "[0x41 :: u8] \<noteq> []" "length [0x41 :: u8] \<le> MTU" "[0x42 :: u8] \<noteq> []" "length [0x42 :: u8] \<le> MTU"
    by (simp_all add: MTU_def)
  have g: "map_option snd (main_iteration sg (main_init rsp_example False)
       (stdin_wakeup [0x41])) =
       Some [Send_frame [0x41] STDIN_CHANNEL 1 RETHOS_FRAME_TYPE_DATA] \<and>
     \<not> rexmit_acked (serial (first_send_example sg)) \<and>
     map_option snd (main_iteration sg (first_send_example sg) (stdin_wakeup [0x42])) =
       Some [Send_frame [0x42] STDIN_CHANNEL 2 RETHOS_FRAME_TYPE_DATA]" for sg
  proof -
  note a = main_iteration_stdin [OF f0 l(1,2), of sg]
  define m1 where "m1 = fst (rethos_send_data_frame (m0\<lparr>inbuf := store_buf (inbuf m0) [0x41]\<rparr>) [0x41] STDIN_CHANNEL)"
  have e1: "first_send_example sg = m1"
    using a by (simp add: first_send_example_def m0_def m1_def)
  have f1: "\<not> stats_fired m1" "\<not> rexmit_fired m1" "\<not> ipaddr_fired m1" "have_stdin m1"
    and o1: "out_seqno (serial m1) = 1" and u1: "\<not> rexmit_acked (serial m1)"
    using f0 o0 by (simp_all add: m1_def send_data_frame_eq)
  note b = main_iteration_stdin [OF f1 l(3,4), of sg]
  show ?thesis
    using a b o0 o1 u1 by (simp add: e1 m0_def [symmetric] send_data_frame_eq)
  qed
  show ?thesis using g [of Char_unsigned] g [of Char_signed] by simp
qed

text \<open>
  C1, as the code has it. The retransmit slot holds one \<open>DATA\<close> frame, the one sent
  last, and no send waits for it to be acknowledged. Each of the five places that send
  data (the bytes read from standard input, the bytes read from the tunnel, the message
  of a client, the address timer, the reply of the command handler) calls
  \<open>rethos_send_data_frame\<close> in every state, the slot acked or not: the frame with the
  next sequence number is sent at once, and it takes the slot, which is then unacked,
  holds that frame, so that a retransmission sends exactly it, with the timer armed. The
  frame in the slot is sent again in two places: in the pass of the loop after the
  retransmission timer has fired, if the slot is unacked (before the frame of the
  address timer, if that has fired too), and when a \<open>NACK\<close> has been received while the
  slot is unacked; neither changes the slot or the counter.
\<close>

theorem sources_send_at_once:
  "(have_stdin m \<and> stdin_ready w = Some bs \<and> bs \<noteq> [] \<longrightarrow>
      fst (snd (stdin_section w m)) = [fresh_frame m (take MTU bs) STDIN_CHANNEL] \<and>
      slot_replaced m (fst (stdin_section w m)) (take MTU bs) STDIN_CHANNEL) \<and>
   (have_tun m \<and> tun_ready w = Some ts \<and> ts \<noteq> [] \<longrightarrow>
      fst (snd (tun_section w m)) = [fresh_frame m (take MTU ts) TUNTAP_CHANNEL] \<and>
      slot_replaced m (fst (tun_section w m)) (take MTU ts) TUNTAP_CHANNEL) \<and>
   (client_socket m i \<and> chan_ready w i = Some stream \<and>
    read_message stream (inbuf m) MTU = (READ_SUCCESS, n, buf) \<longrightarrow>
      snd (channel_step w i m) = [fresh_frame m (load_buf buf n) (word_of_nat i)] \<and>
      slot_replaced m (fst (channel_step w i m)) (load_buf buf n) (word_of_nat i)) \<and>
   (channel (serial m) = CMD_CHANNEL \<and> numbytes (serial m) \<noteq> 0 \<and>
    frame (serial m) 0 = CMD_GET_MCU_IP_ADDR \<longrightarrow>
      take 1 (snd (deliver_frame m)) =
        [fresh_frame m (rsp_frame_bytes (mcu_addr_rsp_frame m)) CMD_CHANNEL] \<and>
      slot_replaced m (fst (deliver_frame m)) (rsp_frame_bytes (mcu_addr_rsp_frame m))
        CMD_CHANNEL) \<and>
   snd (timers_section m) =
     (if stats_fired m \<and> client_socket m (unat RESERVED_CHANNEL) then [Write_stats (stats m)]
      else []) @
     (if rexmit_fired m \<and> \<not> rexmit_acked (serial m) then rethos_rexmit_data_frame (serial m)
      else []) @
     (if ipaddr_fired m then [fresh_frame m (rsp_frame_bytes (mcu_addr_rsp_frame m)) CMD_CHANNEL]
      else []) \<and>
   (ipaddr_fired m \<longrightarrow>
      slot_replaced m (fst (timers_section m)) (rsp_frame_bytes (mcu_addr_rsp_frame m))
        CMD_CHANNEL) \<and>
   (\<not> ipaddr_fired m \<longrightarrow> serial (fst (timers_section m)) = serial m) \<and>
   (channel (serial m) = RESERVED_CHANNEL \<and> frametype (serial m) = RETHOS_FRAME_TYPE_NACK \<and>
    \<not> rexmit_acked (serial m) \<longrightarrow>
      fst (snd (handle_frame_ready m)) = rethos_rexmit_data_frame (serial m) \<and>
      serial (fst (handle_frame_ready m)) = serial m)"
proof -
  note f = send_data_frame_fresh
  have l: "load_buf (store_buf b (take MTU xs)) (min (length xs) MTU) = take MTU xs" for b xs
    using load_store_buf [of b "take MTU xs"] by simp
  have stdin: "have_stdin m \<and> stdin_ready w = Some bs \<and> bs \<noteq> [] \<longrightarrow>
      fst (snd (stdin_section w m)) = [fresh_frame m (take MTU bs) STDIN_CHANNEL] \<and>
      slot_replaced m (fst (stdin_section w m)) (take MTU bs) STDIN_CHANNEL"
    using f [of "m\<lparr>inbuf := store_buf (inbuf m) (take MTU bs)\<rparr>" "take MTU bs" STDIN_CHANNEL]
    by (simp add: stdin_section_def Let_def split_def l fresh_frame_def slot_replaced_def)
  have tun: "have_tun m \<and> tun_ready w = Some ts \<and> ts \<noteq> [] \<longrightarrow>
      fst (snd (tun_section w m)) = [fresh_frame m (take MTU ts) TUNTAP_CHANNEL] \<and>
      slot_replaced m (fst (tun_section w m)) (take MTU ts) TUNTAP_CHANNEL"
    using f [of "m\<lparr>inbuf := store_buf (inbuf m) (take MTU ts)\<rparr>" "take MTU ts" TUNTAP_CHANNEL]
    by (simp add: tun_section_def Let_def split_def l fresh_frame_def slot_replaced_def)
  have chan: "client_socket m i \<and> chan_ready w i = Some stream \<and>
    read_message stream (inbuf m) MTU = (READ_SUCCESS, n, buf) \<longrightarrow>
      snd (channel_step w i m) = [fresh_frame m (load_buf buf n) (word_of_nat i)] \<and>
      slot_replaced m (fst (channel_step w i m)) (load_buf buf n) (word_of_nat i)"
    using f [of "m\<lparr>inbuf := buf,
        stats := (stats m)\<lparr>domain_received := domain_received (stats m) + 1\<rparr>\<rparr>"
        "load_buf buf n" "word_of_nat i"]
    by (simp add: channel_step_def Let_def split_def fresh_frame_def slot_replaced_def)
  have cmd: "channel (serial m) = CMD_CHANNEL \<and> numbytes (serial m) \<noteq> 0 \<and>
    frame (serial m) 0 = CMD_GET_MCU_IP_ADDR \<longrightarrow>
      take 1 (snd (deliver_frame m)) =
        [fresh_frame m (rsp_frame_bytes (mcu_addr_rsp_frame m)) CMD_CHANNEL] \<and>
      slot_replaced m (fst (deliver_frame m)) (rsp_frame_bytes (mcu_addr_rsp_frame m))
        CMD_CHANNEL"
    using f [of m "rsp_frame_bytes (mcu_addr_rsp_frame m)" CMD_CHANNEL]
    by (simp add: deliver_frame_def Let_def split_def fresh_frame_def slot_replaced_def channels)
  define m2 where "m2 = m\<lparr>stats_fired := False, rexmit_fired := False, ipaddr_fired := False\<rparr>"
  have t: "timers_section m =
     (if ipaddr_fired m
      then fst (rethos_send_data_frame m2 (rsp_frame_bytes (mcu_addr_rsp_frame m)) CMD_CHANNEL)
      else m\<lparr>stats_fired := False, rexmit_fired := False\<rparr>,
      (if stats_fired m \<and> client_socket m (unat RESERVED_CHANNEL) then [Write_stats (stats m)]
       else []) @
      (if rexmit_fired m \<and> \<not> rexmit_acked (serial m) then rethos_rexmit_data_frame (serial m)
       else []) @
      (if ipaddr_fired m then snd (rethos_send_data_frame m2 (rsp_frame_bytes (mcu_addr_rsp_frame m)) CMD_CHANNEL)
       else []))"
    by (cases m) (simp add: timers_section_def Let_def split_def m2_def)
  have timers: "snd (timers_section m) =
     (if stats_fired m \<and> client_socket m (unat RESERVED_CHANNEL) then [Write_stats (stats m)]
      else []) @
     (if rexmit_fired m \<and> \<not> rexmit_acked (serial m) then rethos_rexmit_data_frame (serial m)
      else []) @
     (if ipaddr_fired m then [fresh_frame m (rsp_frame_bytes (mcu_addr_rsp_frame m)) CMD_CHANNEL]
      else [])"
    and ip: "ipaddr_fired m \<longrightarrow>
      slot_replaced m (fst (timers_section m)) (rsp_frame_bytes (mcu_addr_rsp_frame m))
        CMD_CHANNEL"
    and nip: "\<not> ipaddr_fired m \<longrightarrow> serial (fst (timers_section m)) = serial m"
    using f [of m2 "rsp_frame_bytes (mcu_addr_rsp_frame m)" CMD_CHANNEL]
    by (simp_all add: t fresh_frame_def slot_replaced_def m2_def)
  have nack: "channel (serial m) = RESERVED_CHANNEL \<and> frametype (serial m) = RETHOS_FRAME_TYPE_NACK \<and>
    \<not> rexmit_acked (serial m) \<longrightarrow>
      fst (snd (handle_frame_ready m)) = rethos_rexmit_data_frame (serial m) \<and>
      serial (fst (handle_frame_ready m)) = serial m"
    using num_channels [of RESERVED_CHANNEL]
    by (auto simp add: handle_frame_ready_def handle_control_frame_def Let_def)
  show ?thesis
    by (intro conjI stdin tun chan cmd timers ip nip nack)
qed

theorem sources_send_at_once_witness:
  "\<not> rexmit_acked (serial busy_example) \<and>
   have_stdin busy_example \<and> stdin_ready busy_wakeup = Some [0x42] \<and>
   have_tun busy_example \<and> tun_ready busy_wakeup = Some [0x43] \<and>
   client_socket busy_example 4 \<and> chan_ready busy_wakeup 4 = Some [0, 0, 0, 1, 0x44] \<and>
   read_message [0, 0, 0, 1, 0x44] (inbuf busy_example) MTU =
     (READ_SUCCESS, 1, store_buf (inbuf busy_example) [0x44]) \<and>
   channel (serial busy_example) = CMD_CHANNEL \<and> numbytes (serial busy_example) \<noteq> 0 \<and>
   frame (serial busy_example) 0 = CMD_GET_MCU_IP_ADDR \<and>
   rexmit_fired busy_example \<and> ipaddr_fired busy_example \<and>
   fst (snd (stdin_section busy_wakeup busy_example)) =
     [Send_frame [0x42] STDIN_CHANNEL 2 RETHOS_FRAME_TYPE_DATA] \<and>
   fst (snd (tun_section busy_wakeup busy_example)) =
     [Send_frame [0x43] TUNTAP_CHANNEL 2 RETHOS_FRAME_TYPE_DATA] \<and>
   snd (channel_step busy_wakeup 4 busy_example) =
     [Send_frame [0x44] 4 2 RETHOS_FRAME_TYPE_DATA] \<and>
   take 1 (snd (deliver_frame busy_example)) =
     [Send_frame [0x11, 0, 0, 0, 0x20, 0x01, 0x0d, 0xb8, 0, 0, 0, 0, 0, 0, 0, 0, 0, 0, 0, 0x02]
        CMD_CHANNEL 2 RETHOS_FRAME_TYPE_DATA] \<and>
   snd (timers_section busy_example) =
     [Send_frame [0x41] 4 1 RETHOS_FRAME_TYPE_DATA,
      Send_frame [0x11, 0, 0, 0, 0x20, 0x01, 0x0d, 0xb8, 0, 0, 0, 0, 0, 0, 0, 0, 0, 0, 0, 0x02]
        CMD_CHANNEL 2 RETHOS_FRAME_TYPE_DATA] \<and>
   channel (serial nack_example) = RESERVED_CHANNEL \<and>
   frametype (serial nack_example) = RETHOS_FRAME_TYPE_NACK \<and>
   \<not> rexmit_acked (serial nack_example) \<and> \<not> ipaddr_fired nack_example \<and>
   fst (snd (handle_frame_ready nack_example)) = [Send_frame [0x41] 4 1 RETHOS_FRAME_TYPE_DATA] \<and>
   serial (fst (timers_section nack_example)) = serial nack_example"
proof -
  have a: "\<not> rexmit_acked (serial busy_example)" "have_stdin busy_example"
    "have_tun busy_example" "client_socket busy_example 4"
    "channel (serial busy_example) = CMD_CHANNEL" "numbytes (serial busy_example) \<noteq> 0"
    "frame (serial busy_example) 0 = CMD_GET_MCU_IP_ADDR"
    "rexmit_fired busy_example" "ipaddr_fired busy_example" "\<not> stats_fired busy_example"
    and o: "out_seqno (serial busy_example) = 1"
    and x: "rethos_rexmit_data_frame (serial busy_example) =
      [Send_frame [0x41] 4 1 RETHOS_FRAME_TYPE_DATA]"
    and r: "rsp_frame_bytes (mcu_addr_rsp_frame busy_example) =
      [0x11, 0, 0, 0, 0x20, 0x01, 0x0d, 0xb8, 0, 0, 0, 0, 0, 0, 0, 0, 0, 0, 0, 0x02]"
    by (simp_all add: busy_example_def unacked_example_def example_defs
        rethos_rexmit_data_frame_def rsp_frame_bytes_def RSP_GET_MCU_IP_ADDR_def
        CMD_GET_MCU_IP_ADDR_def)
  have w: "stdin_ready busy_wakeup = Some [0x42]" "tun_ready busy_wakeup = Some [0x43]"
    "chan_ready busy_wakeup 4 = Some [0, 0, 0, 1, 0x44]"
    by (simp_all add: busy_wakeup_def)
  have rd: "read_message [0, 0, 0, 1, 0x44] (inbuf busy_example) MTU =
     (READ_SUCCESS, 1, store_buf (inbuf busy_example) [0x44])"
    by (simp add: read_message_def checked_read_def ntohl_def MTU_def)
  have lb: "load_buf (store_buf (inbuf busy_example) [0x44]) 1 = [0x44]"
    by (simp add: load_buf_1 store_buf_def)
  have b: "channel (serial nack_example) = RESERVED_CHANNEL"
    "frametype (serial nack_example) = RETHOS_FRAME_TYPE_NACK"
    "\<not> rexmit_acked (serial nack_example)" "\<not> ipaddr_fired nack_example"
    and y: "rethos_rexmit_data_frame (serial nack_example) =
      [Send_frame [0x41] 4 1 RETHOS_FRAME_TYPE_DATA]"
    by (simp_all add: nack_example_def unacked_example_def example_defs
        rethos_rexmit_data_frame_def)
  note A = sources_send_at_once [of busy_example busy_wakeup "[0x42]" "[0x43]" 4
      "[0, 0, 0, 1, 0x44]" 1 "store_buf (inbuf busy_example) [0x44]"]
  note B = sources_send_at_once [of nack_example busy_wakeup "[0x42]" "[0x43]" 4
      "[0, 0, 0, 1, 0x44]" 1 "store_buf (inbuf busy_example) [0x44]"]
  have ra: "fst (snd (stdin_section busy_wakeup busy_example)) =
       [Send_frame [0x42] STDIN_CHANNEL 2 RETHOS_FRAME_TYPE_DATA]"
    "fst (snd (tun_section busy_wakeup busy_example)) =
       [Send_frame [0x43] TUNTAP_CHANNEL 2 RETHOS_FRAME_TYPE_DATA]"
    "snd (channel_step busy_wakeup 4 busy_example) =
       [Send_frame [0x44] 4 2 RETHOS_FRAME_TYPE_DATA]"
    "take 1 (snd (deliver_frame busy_example)) =
     [Send_frame [0x11, 0, 0, 0, 0x20, 0x01, 0x0d, 0xb8, 0, 0, 0, 0, 0, 0, 0, 0, 0, 0, 0, 0x02]
        CMD_CHANNEL 2 RETHOS_FRAME_TYPE_DATA]"
    "snd (timers_section busy_example) =
     [Send_frame [0x41] 4 1 RETHOS_FRAME_TYPE_DATA,
      Send_frame [0x11, 0, 0, 0, 0x20, 0x01, 0x0d, 0xb8, 0, 0, 0, 0, 0, 0, 0, 0, 0, 0, 0, 0x02]
        CMD_CHANNEL 2 RETHOS_FRAME_TYPE_DATA]"
    using A a w rd lb o x r by (simp_all add: fresh_frame_def MTU_def)
  have rb: "fst (snd (handle_frame_ready nack_example)) = [Send_frame [0x41] 4 1 RETHOS_FRAME_TYPE_DATA]"
    "serial (fst (timers_section nack_example)) = serial nack_example"
    using B b y by simp_all
  show ?thesis using a w rd b ra rb by simp
qed

text \<open>
  C7 (the timer is one-shot), refuted as stated. One \<open>DATA\<close> frame has been sent; no
  \<open>ACK\<close> arrives and nothing else is sent. After 100 ms the timer fires and the frame
  is retransmitted; after another 100 ms it fires again and the frame is
  retransmitted a second time. This is so whether \<open>char\<close> is signed or unsigned.
\<close>

theorem rexmit_timer_fires_again:
  "rexmit_fired (rexmit_timer_wait REXMIT_TIMEOUT unacked_example) \<and>
   map_option snd (rexmit_round Char_unsigned unacked_example) =
     Some [Send_frame [0x41] 4 1 RETHOS_FRAME_TYPE_DATA] \<and>
   rexmit_fired (rexmit_timer_wait REXMIT_TIMEOUT
     (fst (the (rexmit_round Char_unsigned unacked_example)))) \<and>
   map_option snd (rexmit_round Char_unsigned (fst (the (rexmit_round Char_unsigned unacked_example)))) =
     Some [Send_frame [0x41] 4 1 RETHOS_FRAME_TYPE_DATA] \<and>
      map_option snd (rexmit_round Char_signed unacked_example) =
     Some [Send_frame [0x41] 4 1 RETHOS_FRAME_TYPE_DATA] \<and>
   rexmit_fired (rexmit_timer_wait REXMIT_TIMEOUT
     (fst (the (rexmit_round Char_signed unacked_example)))) \<and>
   map_option snd (rexmit_round Char_signed (fst (the (rexmit_round Char_signed unacked_example)))) =
     Some [Send_frame [0x41] 4 1 RETHOS_FRAME_TYPE_DATA]"
proof -
  have g: "rexmit_fired (rexmit_timer_wait REXMIT_TIMEOUT unacked_example) \<and>
     map_option snd (rexmit_round sg unacked_example) =
       Some [Send_frame [0x41] 4 1 RETHOS_FRAME_TYPE_DATA] \<and>
     rexmit_fired (rexmit_timer_wait REXMIT_TIMEOUT
       (fst (the (rexmit_round sg unacked_example)))) \<and>
     map_option snd (rexmit_round sg (fst (the (rexmit_round sg unacked_example)))) =
       Some [Send_frame [0x41] 4 1 RETHOS_FRAME_TYPE_DATA]" for sg
  proof -
  define m where "m = unacked_example"
  have a: "rexmit_timer m = rexmit_timer_spec" "\<not> rexmit_acked (serial m)"
    "\<not> stats_fired m" "\<not> ipaddr_fired m"
    and x: "rethos_rexmit_data_frame (serial m) = [Send_frame [0x41] 4 1 RETHOS_FRAME_TYPE_DATA]"
    by (simp_all add: m_def unacked_example_def send_data_frame_eq main_init_def serial_init_def
        rethos_rexmit_data_frame_def load_buf_1 store_buf_def)
  note r1 = rexmit_round_unacked [OF a, of sg]
  define m' where "m' = m\<lparr>rexmit_fired := False\<rparr>"
  have a': "rexmit_timer m' = rexmit_timer_spec" "\<not> rexmit_acked (serial m')"
    "\<not> stats_fired m'" "\<not> ipaddr_fired m'"
    using a by (simp_all add: m'_def)
  note r2 = rexmit_round_unacked [OF a', of sg]
  have f: "rexmit_fired (rexmit_timer_wait REXMIT_TIMEOUT m)"
    "rexmit_fired (rexmit_timer_wait REXMIT_TIMEOUT m')"
    using a(1) a'(1) timer_elapse_periodic by (simp_all add: rexmit_timer_wait_def)
  show ?thesis
    using r1 r2 f x by (simp add: m_def [symmetric] m'_def [symmetric]) (simp add: m'_def)
  qed
  show ?thesis using g [of Char_unsigned] g [of Char_signed] by simp
qed

text \<open>
  C7, as the code has it. The timer is periodic: a \<open>DATA\<close> send arms it with a first
  expiry after 100 ms and a period of 100 ms, whatever it was before. As long as no
  \<open>ACK\<close> arrives and nothing else is sent, it fires every 100 ms, and in each pass of
  the loop after a firing the stored frame is retransmitted: \<open>k\<close> rounds give \<open>k\<close>
  retransmissions. The matching \<open>ACK\<close> marks the slot acked and disarms the timer,
  which then does not fire. This holds whether \<open>char\<close> is signed or unsigned.
\<close>

theorem rexmit_timer_periodic:
  assumes "\<not> stats_fired m" and "\<not> ipaddr_fired m"
  shows "let m1 = fst (rethos_send_data_frame m data chan);
             ma = fst (handle_frame_ready
                    (received m1 RETHOS_FRAME_TYPE_ACK (out_seqno (serial m) + 1) RESERVED_CHANNEL []))
         in rexmit_timer m1 = \<lparr> it_interval = 100000000, it_value = 100000000 \<rparr> \<and>
            map_option snd (rexmit_rounds sg k m1) =
              Some (replicate k (Send_frame data chan (out_seqno (serial m) + 1)
                                   RETHOS_FRAME_TYPE_DATA)) \<and>
            rexmit_acked (serial ma) \<and> rexmit_timer ma = \<lparr> it_interval = 0, it_value = 0 \<rparr> \<and>
            \<not> fst (timer_elapse d (rexmit_timer ma))"
proof -
  define m1 where "m1 = fst (rethos_send_data_frame m data chan)"
  define ma where "ma = fst (handle_frame_ready
      (received m1 RETHOS_FRAME_TYPE_ACK (out_seqno (serial m) + 1) RESERVED_CHANNEL []))"
  have a: "rexmit_timer m1 = rexmit_timer_spec" "\<not> rexmit_acked (serial m1)"
    "\<not> stats_fired m1" "\<not> ipaddr_fired m1"
    and x: "rethos_rexmit_data_frame (serial m1) =
       [Send_frame data chan (out_seqno (serial m) + 1) RETHOS_FRAME_TYPE_DATA]"
    using assms
    by (simp_all add: m1_def send_data_frame_eq rethos_rexmit_data_frame_def load_store_buf)
  have t: "rexmit_timer m1 = \<lparr> it_interval = 100000000, it_value = 100000000 \<rparr>"
    using a(1) by (simp add: rexmit_timer_spec_def REXMIT_TIMEOUT_def)
  have r: "map_option snd (rexmit_rounds sg k m1) =
      Some (replicate k (Send_frame data chan (out_seqno (serial m) + 1) RETHOS_FRAME_TYPE_DATA))"
    using rexmit_rounds_unacked [OF a, of sg k] x
    by (simp add: concat_replicate_single)
  have c: "rexmit_acked (serial ma) \<and> rexmit_timer ma = cancel_timer_spec"
    using num_channels [of RESERVED_CHANNEL]
    by (simp add: ma_def m1_def received_def send_data_frame_eq handle_frame_ready_def
        handle_control_frame_def Let_def frame_types)
  have e: "\<not> fst (timer_elapse d (rexmit_timer ma))"
    using c by (simp add: timer_elapse_cancelled)
  have z: "rexmit_timer ma = \<lparr> it_interval = 0, it_value = 0 \<rparr>"
    using c by (simp add: cancel_timer_spec_def)
  show ?thesis
    using t r c e z unfolding Let_def m1_def [symmetric] ma_def [symmetric] by simp
qed

theorem rexmit_timer_periodic_witness:
  "\<not> stats_fired (main_init rsp_example False) \<and> \<not> ipaddr_fired (main_init rsp_example False) \<and>
   rexmit_timer unacked_example = \<lparr> it_interval = 100000000, it_value = 100000000 \<rparr> \<and>
   map_option snd (rexmit_rounds Char_unsigned 3 unacked_example) =
     Some [Send_frame [0x41] 4 1 RETHOS_FRAME_TYPE_DATA,
           Send_frame [0x41] 4 1 RETHOS_FRAME_TYPE_DATA,
           Send_frame [0x41] 4 1 RETHOS_FRAME_TYPE_DATA]"
proof -
  have a: "\<not> stats_fired (main_init rsp_example False)"
    and b: "\<not> ipaddr_fired (main_init rsp_example False)"
    and o: "out_seqno (serial (main_init rsp_example False)) = 0"
    by (simp_all add: main_init_def serial_init_def)
  show ?thesis
    using a b o rexmit_timer_periodic [OF a b, of "[0x41]" 4 Char_unsigned 3]
    by (simp add: Let_def unacked_example_def [symmetric] numeral_3_eq_3)
qed



end
